theory Spec2Isabelle
  imports
    Main
    "HOL-Library.AList"
    "HOL-Library.Char_ord"
    "HOL-Library.List_Lexorder"
    "HOL-Library.Multiset"
    "HOL-Library.Sublist"
begin

section \<open>Values read from the YAML sources\<close>

text \<open>
  \<^verbatim>\<open>yaml.safe_load\<close> turns a document into nested Python values. The embedding covers
  the values built from \<^verbatim>\<open>None\<close>, booleans, integers, strings, lists and dicts with
  string keys; a dict is an association list in insertion order. A character is a code
  point below 256. Floats and timestamps have no counterpart here.
\<close>

datatype yaml =
    YNull
  | YBool bool
  | YInt int
  | YStr string
  | YList "yaml list"
  | YMap "(string \<times> yaml) list"

type_synonym dict = "(string \<times> yaml) list"

text \<open>The exceptions the scripts can raise; a function that may raise returns a sum.\<close>

datatype py_error = TypeError | KeyError | AttributeError | YAMLError

text \<open>The outcome of one pytest test function that did not raise.\<close>

datatype outcome = Passed | Failed | Skipped

subsection \<open>The Python operations the scripts use\<close>

text \<open>Truth value of an object, as \<^verbatim>\<open>if data\<close> and \<^verbatim>\<open>not x\<close> test it.\<close>

fun py_truthy :: "yaml \<Rightarrow> bool" where
  "py_truthy YNull = False"
| "py_truthy (YBool b) = b"
| "py_truthy (YInt n) = (n \<noteq> 0)"
| "py_truthy (YStr s) = (s \<noteq> [])"
| "py_truthy (YList xs) = (xs \<noteq> [])"
| "py_truthy (YMap m) = (m \<noteq> [])"

text \<open>\<^verbatim>\<open>d.get(k, default)\<close> on a dict.\<close>

definition dict_get :: "dict \<Rightarrow> string \<Rightarrow> yaml \<Rightarrow> yaml" where
  "dict_get d k dflt = (case map_of d k of None \<Rightarrow> dflt | Some v \<Rightarrow> v)"

text \<open>
  \<^verbatim>\<open>k in x\<close> for a string \<open>k\<close>: a key of a dict, an element of a list, a substring of a
  string; any other object is not iterable.
\<close>

fun py_in :: "string \<Rightarrow> yaml \<Rightarrow> py_error + bool" where
  "py_in k (YMap m) = Inr (k \<in> set (map fst m))"
| "py_in k (YList xs) = Inr (YStr k \<in> set xs)"
| "py_in k (YStr s) = Inr (sublist k s)"
| "py_in k YNull = Inl TypeError"
| "py_in k (YBool b) = Inl TypeError"
| "py_in k (YInt n) = Inl TypeError"

text \<open>\<^verbatim>\<open>x[k]\<close> for a string \<open>k\<close>: only a dict can be indexed by a string.\<close>

fun py_getitem :: "yaml \<Rightarrow> string \<Rightarrow> py_error + yaml" where
  "py_getitem (YMap m) k = (case map_of m k of None \<Rightarrow> Inl KeyError | Some v \<Rightarrow> Inr v)"
| "py_getitem YNull k = Inl TypeError"
| "py_getitem (YBool b) k = Inl TypeError"
| "py_getitem (YInt n) k = Inl TypeError"
| "py_getitem (YStr s) k = Inl TypeError"
| "py_getitem (YList xs) k = Inl TypeError"

text \<open>
  What \<^verbatim>\<open>for x in v\<close> (and \<^verbatim>\<open>list.extend(v)\<close>) runs over: the elements of a list, the
  keys of a dict, the characters of a string.
\<close>

fun py_iter :: "yaml \<Rightarrow> py_error + yaml list" where
  "py_iter (YList xs) = Inr xs"
| "py_iter (YMap m) = Inr (map (\<lambda>kv. YStr (fst kv)) m)"
| "py_iter (YStr s) = Inr (map (\<lambda>c. YStr [c]) s)"
| "py_iter YNull = Inl TypeError"
| "py_iter (YBool b) = Inl TypeError"
| "py_iter (YInt n) = Inl TypeError"

text \<open>\<^verbatim>\<open>x[k] = v\<close> for a string \<open>k\<close>: only a dict supports it.\<close>

fun py_setitem :: "yaml \<Rightarrow> string \<Rightarrow> yaml \<Rightarrow> py_error + dict" where
  "py_setitem (YMap m) k v = Inr (AList.update k v m)"
| "py_setitem YNull k v = Inl TypeError"
| "py_setitem (YBool b) k v = Inl TypeError"
| "py_setitem (YInt n) k v = Inl TypeError"
| "py_setitem (YStr s) k v = Inl TypeError"
| "py_setitem (YList xs) k v = Inl TypeError"

text \<open>
  Python's \<^verbatim>\<open>==\<close> on these values: \<^verbatim>\<open>True == 1\<close> and \<^verbatim>\<open>False == 0\<close>, lists are equal
  element by element, dicts when they have the same keys with equal values whatever the
  order of insertion, and values of different kinds are never equal. Two values are
  equal exactly when their canonical forms are the same.
\<close>

fun canon :: "yaml \<Rightarrow> yaml" where
  "canon YNull = YNull"
| "canon (YBool b) = YInt (if b then 1 else 0)"
| "canon (YInt n) = YInt n"
| "canon (YStr s) = YStr s"
| "canon (YList xs) = YList (map canon xs)"
| "canon (YMap m) = YMap (sort_key fst (map (\<lambda>kv. (fst kv, canon (snd kv))) m))"

definition py_eq :: "yaml \<Rightarrow> yaml \<Rightarrow> bool" where
  "py_eq a b = (canon a = canon b)"

text \<open>\<^verbatim>\<open>x in xs\<close> for a list \<open>xs\<close>: some element equals \<open>x\<close>.\<close>

definition py_list_contains :: "yaml list \<Rightarrow> yaml \<Rightarrow> bool" where
  "py_list_contains xs x = list_ex (py_eq x) xs"

text \<open>
  Lists and dicts cannot be hashed: using one as a dict key or a set element raises
  \<^verbatim>\<open>TypeError\<close>. A set or the key set of a dict is kept as the list of the canonical
  forms of its elements.
\<close>

fun py_hashable :: "yaml \<Rightarrow> bool" where
  "py_hashable (YList xs) = False"
| "py_hashable (YMap m) = False"
| "py_hashable v = True"

fun is_list :: "yaml \<Rightarrow> bool" where
  "is_list (YList xs) = True"
| "is_list v = False"

section \<open>Loading the terms (tests/test_yaml_validation.py)\<close>

text \<open>
  The directory of term files is a list of file names with what \<^verbatim>\<open>yaml.safe_load\<close>
  makes of each, in the order \<^verbatim>\<open>glob\<close> yields them; \<open>None\<close> stands for a file whose
  content is not YAML, where \<^verbatim>\<open>safe_load\<close> raises.
\<close>

type_synonym term_files = "(string \<times> yaml option) list"

text \<open>\<^verbatim>\<open>load_all_yaml_files\<close>: the dict from file name to parsed document.\<close>

fun load_all_yaml_files_loop :: "term_files \<Rightarrow> dict \<Rightarrow> py_error + dict" where
  "load_all_yaml_files_loop [] all_data = Inr all_data"
| "load_all_yaml_files_loop ((name, None) # yaml_files) all_data = Inl YAMLError"
| "load_all_yaml_files_loop ((name, Some data) # yaml_files) all_data =
     load_all_yaml_files_loop yaml_files (AList.update name data all_data)"

definition load_all_yaml_files :: "term_files \<Rightarrow> py_error + dict" where
  "load_all_yaml_files yaml_files = load_all_yaml_files_loop yaml_files []"

text \<open>
  The inner loop of \<^verbatim>\<open>get_all_terms\<close>: every element of \<^verbatim>\<open>data["terms"]\<close> gets its
  \<^verbatim>\<open>_source_file\<close> entry and is appended to \<open>terms\<close>.
\<close>

fun tag_terms :: "string \<Rightarrow> yaml list \<Rightarrow> dict list \<Rightarrow> py_error + dict list" where
  "tag_terms filename [] terms = Inr terms"
| "tag_terms filename (t # ts) terms =
     (case py_setitem t ''_source_file'' (YStr filename) of
        Inl e \<Rightarrow> Inl e
      | Inr t' \<Rightarrow> tag_terms filename ts (terms @ [t']))"

fun get_all_terms_loop :: "dict \<Rightarrow> dict list \<Rightarrow> py_error + dict list" where
  "get_all_terms_loop [] terms = Inr terms"
| "get_all_terms_loop ((filename, data) # rest) terms =
     (if py_truthy data then
        (case py_in ''terms'' data of
           Inl e \<Rightarrow> Inl e
         | Inr False \<Rightarrow> get_all_terms_loop rest terms
         | Inr True \<Rightarrow>
            (case py_getitem data ''terms'' of
               Inl e \<Rightarrow> Inl e
             | Inr v \<Rightarrow>
                (case py_iter v of
                   Inl e \<Rightarrow> Inl e
                 | Inr ts \<Rightarrow>
                    (case tag_terms filename ts terms of
                       Inl e \<Rightarrow> Inl e
                     | Inr terms' \<Rightarrow> get_all_terms_loop rest terms'))))
      else get_all_terms_loop rest terms)"

definition get_all_terms :: "term_files \<Rightarrow> py_error + dict list" where
  "get_all_terms yaml_files =
     (case load_all_yaml_files yaml_files of
        Inl e \<Rightarrow> Inl e
      | Inr all_data \<Rightarrow> get_all_terms_loop all_data [])"

text \<open>What one file contributes: the body of the loop of \<^verbatim>\<open>get_all_terms\<close>, run once.\<close>

definition file_terms :: "string \<Rightarrow> yaml \<Rightarrow> py_error + dict list" where
  "file_terms filename data = get_all_terms_loop [(filename, data)] []"

section \<open>The validation tests (tests/test_yaml_validation.py)\<close>

text \<open>
  A test collects its findings in a list and asserts that the list is empty. A finding
  keeps the values its message interpolates, in the order of the message.
\<close>

datatype finding =
    DuplicateId yaml yaml yaml
  | InvalidId yaml yaml
  | InvalidCategory yaml yaml yaml
  | MissingReference yaml yaml yaml
  | InvalidUrl yaml yaml string

definition assert_empty :: "finding list \<Rightarrow> outcome" where
  "assert_empty findings = (if length findings = 0 then Passed else Failed)"

subsection \<open>Structure of the files\<close>

text \<open>
  \<^verbatim>\<open>TestYamlStructure.test_yaml_has_terms_key\<close>, over the dict of the fixture
  \<^verbatim>\<open>all_yaml_files\<close>: the first failing assertion ends the test.
\<close>

fun test_yaml_has_terms_key :: "dict \<Rightarrow> py_error + outcome" where
  "test_yaml_has_terms_key [] = Inr Passed"
| "test_yaml_has_terms_key ((filename, data) # all_yaml_files) =
     (case py_in ''terms'' data of
        Inl e \<Rightarrow> Inl e
      | Inr False \<Rightarrow> Inr Failed
      | Inr True \<Rightarrow>
         (case py_getitem data ''terms'' of
            Inl e \<Rightarrow> Inl e
          | Inr v \<Rightarrow> if is_list v then test_yaml_has_terms_key all_yaml_files else Inr Failed))"

definition run_test_yaml_has_terms_key :: "term_files \<Rightarrow> py_error + outcome" where
  "run_test_yaml_has_terms_key yaml_files =
     (case load_all_yaml_files yaml_files of
        Inl e \<Rightarrow> Inl e
      | Inr all_yaml_files \<Rightarrow> test_yaml_has_terms_key all_yaml_files)"

subsection \<open>Uniqueness and format of ids\<close>

text \<open>
  \<^verbatim>\<open>TestTermIdUniqueness.test_term_ids_unique_globally\<close>. The dict \<open>seen_ids\<close> maps an id
  to the source file of the first term that has it.
\<close>

fun term_ids_unique_loop ::
    "dict list \<Rightarrow> (yaml \<times> yaml) list \<Rightarrow> finding list \<Rightarrow> py_error + finding list" where
  "term_ids_unique_loop [] seen_ids duplicates = Inr duplicates"
| "term_ids_unique_loop (term # all_terms) seen_ids duplicates =
     (let term_id = dict_get term ''id'' YNull;
          source = dict_get term ''_source_file'' YNull
      in if \<not> py_hashable term_id then Inl TypeError
         else (case map_of seen_ids (canon term_id) of
                 Some first_source \<Rightarrow>
                   term_ids_unique_loop all_terms seen_ids
                     (duplicates @ [DuplicateId term_id first_source source])
               | None \<Rightarrow>
                   term_ids_unique_loop all_terms
                     (seen_ids @ [(canon term_id, source)]) duplicates))"

definition duplicate_ids :: "dict list \<Rightarrow> py_error + finding list" where
  "duplicate_ids all_terms = term_ids_unique_loop all_terms [] []"

definition test_term_ids_unique_globally :: "dict list \<Rightarrow> py_error + outcome" where
  "test_term_ids_unique_globally all_terms =
     (case duplicate_ids all_terms of
        Inl e \<Rightarrow> Inl e
      | Inr duplicates \<Rightarrow> Inr (assert_empty duplicates))"

text \<open>
  The pattern \<^verbatim>\<open>^[a-z][a-z0-9_]*$\<close> under \<^verbatim>\<open>re.match\<close>. Without the MULTILINE flag,
  \<^verbatim>\<open>$\<close> matches at the end of the string and also just before a newline that is the
  last character. No character of the class is a newline, so the match exists exactly
  when what follows the longest run of class characters is empty or one newline.
\<close>

definition is_lower :: "char \<Rightarrow> bool" where
  "is_lower c = (CHR ''a'' \<le> c \<and> c \<le> CHR ''z'')"

definition is_digit :: "char \<Rightarrow> bool" where
  "is_digit c = (CHR ''0'' \<le> c \<and> c \<le> CHR ''9'')"

definition is_id_char :: "char \<Rightarrow> bool" where
  "is_id_char c = (is_lower c \<or> is_digit c \<or> c = CHR ''_'')"

definition id_pattern_match :: "string \<Rightarrow> bool" where
  "id_pattern_match s =
     (case s of
        [] \<Rightarrow> False
      | c # cs \<Rightarrow>
          is_lower c \<and>
          (let rest = dropWhile is_id_char cs in rest = [] \<or> rest = [CHR 0x0A]))"

text \<open>
  \<^verbatim>\<open>TestTermIdUniqueness.test_term_id_format\<close>. \<^verbatim>\<open>match\<close> raises \<^verbatim>\<open>TypeError\<close> when
  its argument is not a string.
\<close>

fun term_id_format_loop :: "dict list \<Rightarrow> finding list \<Rightarrow> py_error + finding list" where
  "term_id_format_loop [] invalid_ids = Inr invalid_ids"
| "term_id_format_loop (term # all_terms) invalid_ids =
     (case dict_get term ''id'' (YStr []) of
        YStr term_id \<Rightarrow>
          if \<not> id_pattern_match term_id
          then term_id_format_loop all_terms
                 (invalid_ids @ [InvalidId (YStr term_id) (dict_get term ''_source_file'' YNull)])
          else term_id_format_loop all_terms invalid_ids
      | _ \<Rightarrow> Inl TypeError)"

definition invalid_ids :: "dict list \<Rightarrow> py_error + finding list" where
  "invalid_ids all_terms = term_id_format_loop all_terms []"

definition test_term_id_format :: "dict list \<Rightarrow> py_error + outcome" where
  "test_term_id_format all_terms =
     (case invalid_ids all_terms of
        Inl e \<Rightarrow> Inl e
      | Inr found \<Rightarrow> Inr (assert_empty found))"

subsection \<open>Categories\<close>

text \<open>
  The registry file \<^verbatim>\<open>meta/categories.yaml\<close>: \<open>None\<close> when it does not exist,
  \<open>Some None\<close> when it exists and is not YAML, \<open>Some (Some data)\<close> otherwise.
\<close>

type_synonym registry_file = "yaml option option"

text \<open>The comprehension \<^verbatim>\<open>[cat["id"] for cat in ...]\<close>.\<close>

fun category_ids :: "yaml list \<Rightarrow> py_error + yaml list" where
  "category_ids [] = Inr []"
| "category_ids (cat # cats) =
     (case py_getitem cat ''id'' of
        Inl e \<Rightarrow> Inl e
      | Inr i \<Rightarrow> (case category_ids cats of Inl e \<Rightarrow> Inl e | Inr ids \<Rightarrow> Inr (i # ids)))"

text \<open>\<^verbatim>\<open>load_valid_categories\<close>; \<^verbatim>\<open>data.get\<close> exists only when \<open>data\<close> is a dict.\<close>

fun load_valid_categories :: "registry_file \<Rightarrow> py_error + yaml list" where
  "load_valid_categories None = Inr []"
| "load_valid_categories (Some None) = Inl YAMLError"
| "load_valid_categories (Some (Some (YMap data))) =
     (case py_iter (dict_get data ''categories'' (YList [])) of
        Inl e \<Rightarrow> Inl e
      | Inr cats \<Rightarrow> category_ids cats)"
| "load_valid_categories (Some (Some data)) = Inl AttributeError"

text \<open>\<^verbatim>\<open>TestCategoryConsistency.test_category_is_valid\<close>.\<close>

fun category_is_valid_loop :: "dict list \<Rightarrow> yaml list \<Rightarrow> finding list \<Rightarrow> finding list" where
  "category_is_valid_loop [] valid_categories invalid_categories = invalid_categories"
| "category_is_valid_loop (term # all_terms) valid_categories invalid_categories =
     (let term_id = dict_get term ''id'' (YStr ''unknown'');
          source = dict_get term ''_source_file'' (YStr ''unknown'');
          category = dict_get term ''category'' (YStr [])
      in if \<not> py_list_contains valid_categories category
         then category_is_valid_loop all_terms valid_categories
                (invalid_categories @ [InvalidCategory source term_id category])
         else category_is_valid_loop all_terms valid_categories invalid_categories)"

definition test_category_is_valid :: "dict list \<Rightarrow> yaml list \<Rightarrow> outcome" where
  "test_category_is_valid all_terms valid_categories =
     (if valid_categories = [] then Skipped
      else assert_empty (category_is_valid_loop all_terms valid_categories []))"

text \<open>The test with its two fixtures.\<close>

definition run_test_category_is_valid :: "term_files \<Rightarrow> registry_file \<Rightarrow> py_error + outcome" where
  "run_test_category_is_valid yaml_files registry =
     (case get_all_terms yaml_files of
        Inl e \<Rightarrow> Inl e
      | Inr all_terms \<Rightarrow>
         (case load_valid_categories registry of
            Inl e \<Rightarrow> Inl e
          | Inr valid_categories \<Rightarrow> Inr (test_category_is_valid all_terms valid_categories)))"

subsection \<open>Related terms\<close>

text \<open>
  The fixture \<^verbatim>\<open>all_term_ids\<close>, the set
  \<^verbatim>\<open>{term.get("id") for term in all_terms if term.get("id")}\<close>.
\<close>

fun all_term_ids_loop :: "dict list \<Rightarrow> yaml list \<Rightarrow> py_error + yaml list" where
  "all_term_ids_loop [] ids = Inr ids"
| "all_term_ids_loop (term # all_terms) ids =
     (let i = dict_get term ''id'' YNull
      in if py_truthy i
         then (if py_hashable i then all_term_ids_loop all_terms (ids @ [canon i])
               else Inl TypeError)
         else all_term_ids_loop all_terms ids)"

definition all_term_ids :: "dict list \<Rightarrow> py_error + yaml list" where
  "all_term_ids all_terms = all_term_ids_loop all_terms []"

text \<open>The inner loop of \<^verbatim>\<open>test_related_terms_exist\<close>, over one term's \<open>related_terms\<close>.\<close>

fun related_loop ::
    "yaml \<Rightarrow> yaml \<Rightarrow> yaml list \<Rightarrow> yaml list \<Rightarrow> finding list \<Rightarrow> py_error + finding list" where
  "related_loop source term_id [] ids missing_references = Inr missing_references"
| "related_loop source term_id (ref_id # related) ids missing_references =
     (if \<not> py_hashable ref_id then Inl TypeError
      else if canon ref_id \<notin> set ids
      then related_loop source term_id related ids
             (missing_references @ [MissingReference source term_id ref_id])
      else related_loop source term_id related ids missing_references)"

fun related_terms_loop :: "dict list \<Rightarrow> yaml list \<Rightarrow> finding list \<Rightarrow> py_error + finding list" where
  "related_terms_loop [] ids missing_references = Inr missing_references"
| "related_terms_loop (term # all_terms) ids missing_references =
     (let term_id = dict_get term ''id'' (YStr ''unknown'');
          source = dict_get term ''_source_file'' (YStr ''unknown'')
      in case dict_get term ''related_terms'' (YList []) of
           YList related \<Rightarrow>
             (case related_loop source term_id related ids missing_references of
                Inl e \<Rightarrow> Inl e
              | Inr missing_references' \<Rightarrow> related_terms_loop all_terms ids missing_references')
         | _ \<Rightarrow> related_terms_loop all_terms ids missing_references)"

definition missing_references :: "dict list \<Rightarrow> yaml list \<Rightarrow> py_error + finding list" where
  "missing_references all_terms ids = related_terms_loop all_terms ids []"

text \<open>
  \<^verbatim>\<open>TestRelatedTerms.test_related_terms_exist\<close> asserts nothing; it prints a warning
  with the number of missing references. The result is the outcome and what was printed.
\<close>

datatype alert = MissingReferencesWarning nat

definition test_related_terms_exist :: "dict list \<Rightarrow> yaml list \<Rightarrow> py_error + outcome \<times> alert list" where
  "test_related_terms_exist all_terms ids =
     (case missing_references all_terms ids of
        Inl e \<Rightarrow> Inl e
      | Inr missing \<Rightarrow>
          Inr (Passed,
               if missing \<noteq> [] \<and> length missing > 10
               then [MissingReferencesWarning (length missing)] else []))"

definition run_test_related_terms_exist :: "dict list \<Rightarrow> py_error + outcome \<times> alert list" where
  "run_test_related_terms_exist all_terms =
     (case all_term_ids all_terms of
        Inl e \<Rightarrow> Inl e
      | Inr ids \<Rightarrow> test_related_terms_exist all_terms ids)"

subsection \<open>Reference URLs\<close>

text \<open>
  \<^verbatim>\<open>\s\<close> in a string pattern: the characters for which \<^verbatim>\<open>str.isspace\<close> holds, among the
  code points below 256.
\<close>

definition py_isspace :: "char \<Rightarrow> bool" where
  "py_isspace c =
     (let n = (of_char c :: nat)
      in (9 \<le> n \<and> n \<le> 13) \<or> (28 \<le> n \<and> n \<le> 32) \<or> n = 133 \<or> n = 160)"

text \<open>The class \<^verbatim>\<open>[^\s"'<>]\<close>.\<close>

definition url_char :: "char \<Rightarrow> bool" where
  "url_char c =
     (\<not> py_isspace c \<and> c \<noteq> CHR 0x22 \<and> c \<noteq> CHR 0x27 \<and> c \<noteq> CHR ''<'' \<and> c \<noteq> CHR ''>'')"

text \<open>
  \<^verbatim>\<open>URL_PATTERN.match(url)\<close> for \<^verbatim>\<open>https?://[^\s"'<>]+\<close>: \<^verbatim>\<open>match\<close> anchors the pattern at
  the start of the string only, so a match exists as soon as one character of the class
  follows the scheme.
\<close>

definition starts_url :: "string \<Rightarrow> string \<Rightarrow> bool" where
  "starts_url scheme url =
     (prefix scheme url \<and>
      (case drop (length scheme) url of [] \<Rightarrow> False | c # cs \<Rightarrow> url_char c))"

definition URL_PATTERN_match :: "string \<Rightarrow> bool" where
  "URL_PATTERN_match url = (starts_url ''http://'' url \<or> starts_url ''https://'' url)"


text \<open>\<^verbatim>\<open>TestUrlValidity.test_reference_urls_format\<close>: the loop over one dict of references.\<close>

fun references_loop :: "yaml \<Rightarrow> yaml \<Rightarrow> dict \<Rightarrow> finding list \<Rightarrow> finding list" where
  "references_loop source term_id [] invalid_urls = invalid_urls"
| "references_loop source term_id ((key, url) # references) invalid_urls =
     (case url of
        YStr s \<Rightarrow>
          if py_truthy url \<and> \<not> URL_PATTERN_match s
          then references_loop source term_id references
                 (invalid_urls @ [InvalidUrl source term_id key])
          else references_loop source term_id references invalid_urls
      | _ \<Rightarrow> references_loop source term_id references invalid_urls)"

fun reference_urls_loop :: "dict list \<Rightarrow> finding list \<Rightarrow> finding list" where
  "reference_urls_loop [] invalid_urls = invalid_urls"
| "reference_urls_loop (term # all_terms) invalid_urls =
     (let term_id = dict_get term ''id'' (YStr ''unknown'');
          source = dict_get term ''_source_file'' (YStr ''unknown'')
      in case dict_get term ''references'' (YMap []) of
           YMap references \<Rightarrow>
             reference_urls_loop all_terms (references_loop source term_id references invalid_urls)
         | _ \<Rightarrow> reference_urls_loop all_terms invalid_urls)"

definition invalid_urls :: "dict list \<Rightarrow> finding list" where
  "invalid_urls all_terms = reference_urls_loop all_terms []"

definition test_reference_urls_format :: "dict list \<Rightarrow> outcome" where
  "test_reference_urls_format all_terms = assert_empty (invalid_urls all_terms)"

subsection \<open>Minimum number of terms\<close>

text \<open>\<^verbatim>\<open>TestTermCount.test_minimum_term_count\<close>.\<close>

definition test_minimum_term_count :: "term_files \<Rightarrow> py_error + outcome" where
  "test_minimum_term_count yaml_files =
     (case get_all_terms yaml_files of
        Inl e \<Rightarrow> Inl e
      | Inr terms \<Rightarrow> if length terms \<ge> 100 then Inr Passed else Inr Failed)"

section \<open>The documentation build (scripts/build_docs.py)\<close>

text \<open>
  \<^verbatim>\<open>load_all_terms\<close> reads the files in the order of \<^verbatim>\<open>sorted\<close>, that is by name, and
  extends the list of terms with whatever \<^verbatim>\<open>data["terms"]\<close> iterates over.
\<close>

fun load_all_terms_loop :: "term_files \<Rightarrow> yaml list \<Rightarrow> py_error + yaml list" where
  "load_all_terms_loop [] terms = Inr terms"
| "load_all_terms_loop ((yaml_file, None) # yaml_files) terms = Inl YAMLError"
| "load_all_terms_loop ((yaml_file, Some data) # yaml_files) terms =
     (if py_truthy data then
        (case py_in ''terms'' data of
           Inl e \<Rightarrow> Inl e
         | Inr False \<Rightarrow> load_all_terms_loop yaml_files terms
         | Inr True \<Rightarrow>
            (case py_getitem data ''terms'' of
               Inl e \<Rightarrow> Inl e
             | Inr v \<Rightarrow>
                (case py_iter v of
                   Inl e \<Rightarrow> Inl e
                 | Inr ts \<Rightarrow> load_all_terms_loop yaml_files (terms @ ts))))
      else load_all_terms_loop yaml_files terms)"

definition load_all_terms :: "term_files \<Rightarrow> py_error + yaml list" where
  "load_all_terms yaml_files = load_all_terms_loop (sort_key fst yaml_files) []"


section \<open>Notions used in the statements\<close>

text \<open>The key under which a term's id is kept in \<open>seen_ids\<close>.\<close>

definition term_key :: "dict \<Rightarrow> yaml" where
  "term_key t = canon (dict_get t ''id'' YNull)"

text \<open>The findings one term adds in \<^verbatim>\<open>test_reference_urls_format\<close>.\<close>

definition term_invalid_urls :: "dict \<Rightarrow> finding list" where
  "term_invalid_urls t = reference_urls_loop [t] []"

text \<open>An entry of \<open>references\<close> that the test compares with the pattern and reports.\<close>

fun reported_url :: "yaml \<Rightarrow> bool" where
  "reported_url (YStr s) = (s \<noteq> [] \<and> \<not> URL_PATTERN_match s)"
| "reported_url v = False"

text \<open>
  A document of the shape the specification asks for: a mapping with a key \<^verbatim>\<open>terms\<close>
  whose value is a sequence.
\<close>

fun has_terms_sequence :: "yaml \<Rightarrow> bool" where
  "has_terms_sequence (YMap m) = (case map_of m ''terms'' of Some (YList ts) \<Rightarrow> True | _ \<Rightarrow> False)"
| "has_terms_sequence v = False"

text \<open>The finding \<^verbatim>\<open>test_category_is_valid\<close> records for a term.\<close>

definition category_finding :: "dict \<Rightarrow> finding" where
  "category_finding t =
     InvalidCategory (dict_get t ''_source_file'' (YStr ''unknown''))
       (dict_get t ''id'' (YStr ''unknown'')) (dict_get t ''category'' (YStr []))"

text \<open>The list a term's \<open>related_terms\<close> holds, when it is a list.\<close>

definition related_list :: "dict \<Rightarrow> yaml list" where
  "related_list t = (case dict_get t ''related_terms'' (YList []) of YList related \<Rightarrow> related | _ \<Rightarrow> [])"

text \<open>The references of a term that are not among \<open>ids\<close>.\<close>

definition dangling :: "yaml list \<Rightarrow> dict \<Rightarrow> yaml list" where
  "dangling ids t = filter (\<lambda>ref_id. canon ref_id \<notin> set ids) (related_list t)"

text \<open>The findings \<^verbatim>\<open>test_related_terms_exist\<close> records for a term.\<close>

definition term_missing_references :: "yaml list \<Rightarrow> dict \<Rightarrow> finding list" where
  "term_missing_references ids t =
     map (MissingReference (dict_get t ''_source_file'' (YStr ''unknown''))
            (dict_get t ''id'' (YStr ''unknown'')))
       (dangling ids t)"


text \<open>The sequence under \<^verbatim>\<open>terms\<close> of a document of the expected shape.\<close>

fun doc_terms :: "yaml \<Rightarrow> yaml list" where
  "doc_terms (YMap m) = (case map_of m ''terms'' of Some (YList ts) \<Rightarrow> ts | _ \<Rightarrow> [])"
| "doc_terms v = []"

text \<open>The same for a file; nothing for a file that is not YAML.\<close>

definition file_doc_terms :: "string \<times> yaml option \<Rightarrow> yaml list" where
  "file_doc_terms f = (case snd f of None \<Rightarrow> [] | Some d \<Rightarrow> doc_terms d)"

text \<open>
  A file that parses to a document of the expected shape, or to one that the guard of
  the loaders passes over: an empty document or one without \<^verbatim>\<open>terms\<close>.
\<close>

definition loadable_file :: "string \<times> yaml option \<Rightarrow> bool" where
  "loadable_file f =
     (case snd f of
        None \<Rightarrow> False
      | Some d \<Rightarrow> has_terms_sequence d \<or> \<not> py_truthy d \<or> py_in ''terms'' d = Inr False)"

section \<open>Concrete inputs\<close>

text \<open>One file of \<open>n\<close> terms.\<close>

definition corpus :: "nat \<Rightarrow> term_files" where
  "corpus n = [(''malware.yaml'', Some (YMap [(''terms'', YList (replicate n (YMap [(''id'', YStr ''x'')])))]))]"

text \<open>Two terms with the id \<^verbatim>\<open>apt\<close>, loaded from two files.\<close>

definition two_apt_terms :: "dict list" where
  "two_apt_terms =
     [[(''id'', YStr ''apt''), (''_source_file'', YStr ''malware.yaml'')],
      [(''id'', YStr ''apt''), (''_source_file'', YStr ''threat_actors.yaml'')]]"

text \<open>A term whose \<open>references\<close> lists one name with the text \<^verbatim>\<open>not-a-url\<close>.\<close>

definition osint_term :: dict where
  "osint_term =
     [(''id'', YStr ''osint_tools''),
      (''references'', YMap [(''osint'', YStr ''not-a-url'')]),
      (''_source_file'', YStr ''technologies.yaml'')]"



text \<open>A term whose \<open>references\<close> is a list.\<close>

definition list_references_term :: dict where
  "list_references_term =
     [(''id'', YStr ''osint_tools''),
      (''references'', YList [YStr ''not-a-url'']),
      (''_source_file'', YStr ''technologies.yaml'')]"

text \<open>A term with one well-formed reference and one that is \<^verbatim>\<open>None\<close>.\<close>

definition mixed_references_term :: dict where
  "mixed_references_term =
     [(''id'', YStr ''osint_tools''),
      (''references'', YMap [(''wiki'', YStr ''https://example.org/osint''), (''draft'', YNull)]),
      (''_source_file'', YStr ''technologies.yaml'')]"

text \<open>A term whose id ends with a newline.\<close>

definition newline_id_term :: dict where
  "newline_id_term = [(''id'', YStr (''apt'' @ [CHR 0x0A])), (''_source_file'', YStr ''malware.yaml'')]"

text \<open>A file whose \<^verbatim>\<open>terms\<close> is \<^verbatim>\<open>null\<close>.\<close>

definition null_terms_file :: "string \<times> yaml option" where
  "null_terms_file = (''attack_types.yaml'', Some (YMap [(''terms'', YNull)]))"

text \<open>A well-formed file with one term.\<close>

definition one_term_file :: "string \<times> yaml option" where
  "one_term_file = (''malware.yaml'', Some (YMap [(''terms'', YList [YMap [(''id'', YStr ''worm'')]])]))"

text \<open>A file with one term of a category that no registry below lists.\<close>

definition unknown_category_file :: "string \<times> yaml option" where
  "unknown_category_file =
     (''malware.yaml'',
      Some (YMap [(''terms'', YList [YMap [(''id'', YStr ''worm''), (''category'', YStr ''nonexistent_cat'')]])]))"

text \<open>A registry of two categories.\<close>

definition two_categories :: yaml where
  "two_categories =
     YMap [(''categories'',
            YList [YMap [(''id'', YStr ''attack_types''), (''icon'', YStr ''x'')],
                   YMap [(''id'', YStr ''malware'')]])]"

text \<open>\<open>n\<close> terms, each with one related term that does not exist.\<close>

definition dangling_terms :: "nat \<Rightarrow> dict list" where
  "dangling_terms n =
     replicate n [(''id'', YStr ''worm''), (''related_terms'', YList [YStr ''ghost'']),
                  (''_source_file'', YStr ''malware.yaml'')]"


text \<open>Two files, as \<^verbatim>\<open>glob\<close> may yield them in either order.\<close>

definition malware_file :: "string \<times> yaml option" where
  "malware_file =
     (''malware.yaml'',
      Some (YMap [(''terms'', YList [YMap [(''id'', YStr ''worm'')], YMap [(''id'', YStr ''virus'')]])]))"

text \<open>The second file; its name sorts before the name of the first.\<close>

definition attack_file :: "string \<times> yaml option" where
  "attack_file =
     (''attack_types.yaml'', Some (YMap [(''terms'', YList [YMap [(''id'', YStr ''phishing'')]])]))"

text \<open>A file with one term whose id is a list.\<close>

definition list_id_file :: "string \<times> yaml option" where
  "list_id_file =
     (''malware.yaml'', Some (YMap [(''terms'', YList [YMap [(''id'', YList [YStr ''apt''])]])]))"

text \<open>The term that file loads to.\<close>

definition list_id_term :: dict where
  "list_id_term = [(''id'', YList [YStr ''apt'']), (''_source_file'', YStr ''malware.yaml'')]"

text \<open>A file with one term whose \<open>related_terms\<close> holds a known id and a list.\<close>

definition nested_related_file :: "string \<times> yaml option" where
  "nested_related_file =
     (''malware.yaml'',
      Some (YMap [(''terms'',
                   YList [YMap [(''id'', YStr ''worm''),
                                (''related_terms'', YList [YStr ''worm'', YList [YStr ''worm'']])]])]))"

text \<open>The term that file loads to.\<close>

definition nested_related_term :: dict where
  "nested_related_term =
     [(''id'', YStr ''worm''),
      (''related_terms'', YList [YStr ''worm'', YList [YStr ''worm'']]),
      (''_source_file'', YStr ''malware.yaml'')]"

section \<open>Properties of the loader\<close>

lemma map_of_in_keys: "map_of m k = Some v \<Longrightarrow> k \<in> fst ` set m"
  by (metis map_of_eq_None_iff option.distinct(1))

lemma update_fresh: "k \<notin> set (map fst al) \<Longrightarrow> AList.update k v al = al @ [(k, v)]"
  by (induction al) auto

lemma tag_terms_acc:
  "tag_terms fn ts terms = (case tag_terms fn ts [] of Inl e \<Rightarrow> Inl e | Inr r \<Rightarrow> Inr (terms @ r))"
proof (induction ts arbitrary: terms)
  case Nil
  then show ?case by simp
next
  case (Cons t ts)
  show ?case
  proof (cases "py_setitem t ''_source_file'' (YStr fn)")
    case (Inl e)
    then show ?thesis by simp
  next
    case (Inr t')
    have a: "tag_terms fn ts (terms @ [t']) = (case tag_terms fn ts [] of Inl e \<Rightarrow> Inl e | Inr r \<Rightarrow> Inr ((terms @ [t']) @ r))"
      by (rule Cons.IH)
    have b: "tag_terms fn ts ([] @ [t']) = (case tag_terms fn ts [] of Inl e \<Rightarrow> Inl e | Inr r \<Rightarrow> Inr (([] @ [t']) @ r))"
      by (rule Cons.IH)
    show ?thesis using Inr a b by (simp split: sum.splits)
  qed
qed

lemma tag_terms_maps:
  "tag_terms fn (map YMap ds) terms = Inr (terms @ map (AList.update ''_source_file'' (YStr fn)) ds)"
  by (induction ds arbitrary: terms) auto

lemma get_all_terms_loop_Cons:
  "get_all_terms_loop ((f, d) # rest) terms =
     (case file_terms f d of Inl e \<Rightarrow> Inl e | Inr ts \<Rightarrow> get_all_terms_loop rest (terms @ ts))"
  unfolding file_terms_def
  using tag_terms_acc [of f _ terms]
  by (auto split: sum.splits bool.splits)

lemma get_all_terms_loop_append:
  "get_all_terms_loop (a @ b) terms =
     (case get_all_terms_loop a terms of Inl e \<Rightarrow> Inl e | Inr r \<Rightarrow> get_all_terms_loop b r)"
proof (induction a arbitrary: terms)
  case Nil
  then show ?case by simp
next
  case (Cons x a)
  obtain f d where x: "x = (f, d)" by (cases x)
  show ?case using Cons.IH unfolding x append_Cons get_all_terms_loop_Cons
    by (simp split: sum.splits)
qed

lemma load_all_yaml_files_loop_cases:
  "distinct (map fst fs) \<Longrightarrow> set (map fst fs) \<inter> set (map fst acc) = {} \<Longrightarrow>
   load_all_yaml_files_loop fs acc =
     (if None \<in> set (map snd fs) then Inl YAMLError
      else Inr (acc @ map (\<lambda>f. (fst f, the (snd f))) fs))"
proof (induction fs arbitrary: acc)
  case Nil
  then show ?case by simp
next
  case (Cons f fs)
  obtain n d where f: "f = (n, d)" by (cases f)
  show ?case
  proof (cases d)
    case None
    then show ?thesis using f by simp
  next
    case (Some data)
    have fresh: "n \<notin> set (map fst acc)" using Cons.prems(2) f by auto
    have "load_all_yaml_files_loop fs (acc @ [(n, data)]) =
       (if None \<in> set (map snd fs) then Inl YAMLError
        else Inr ((acc @ [(n, data)]) @ map (\<lambda>f. (fst f, the (snd f))) fs))"
      using Cons.prems f by (intro Cons.IH) auto
    then show ?thesis using f Some fresh by (simp add: update_fresh)
  qed
qed

lemma load_all_yaml_files_cases:
  "distinct (map fst fs) \<Longrightarrow>
   load_all_yaml_files fs =
     (if None \<in> set (map snd fs) then Inl YAMLError
      else Inr (map (\<lambda>f. (fst f, the (snd f))) fs))"
  using load_all_yaml_files_loop_cases [of fs "[]"] by (simp add: load_all_yaml_files_def)

lemma get_all_terms_skip_file:
  assumes d: "distinct (map fst (fs1 @ (name, Some data) # fs2))"
      and e: "file_terms name data = Inr []"
  shows "get_all_terms (fs1 @ (name, Some data) # fs2) = get_all_terms (fs1 @ fs2)"
proof -
  have d': "distinct (map fst (fs1 @ fs2))" using d by auto
  show ?thesis
  proof (cases "None \<in> set (map snd (fs1 @ fs2))")
    case True
    then show ?thesis
      using d d' by (auto simp: get_all_terms_def load_all_yaml_files_cases)
  next
    case False
    then show ?thesis
      using e
      by (simp add: get_all_terms_def load_all_yaml_files_cases [OF d]
          load_all_yaml_files_cases [OF d'] get_all_terms_loop_append
          get_all_terms_loop_Cons del: get_all_terms_loop.simps split: sum.splits)
  qed
qed

lemma file_terms_skipped:
  "\<not> py_truthy d \<or> py_in ''terms'' d = Inr False \<Longrightarrow> file_terms n d = Inr []"
  by (auto simp: file_terms_def)

lemma tag_terms_length:
  "tag_terms fn ts acc = Inr r \<Longrightarrow> length r = length acc + length ts"
proof (induction ts arbitrary: acc)
  case Nil
  then show ?case by simp
next
  case (Cons t ts)
  then show ?case by (cases "py_setitem t ''_source_file'' (YStr fn)") fastforce+
qed

lemma file_terms_length:
  assumes "loadable_file (n, Some d)" and "file_terms n d = Inr ts"
  shows "length ts = length (file_doc_terms (n, Some d))"
proof (cases "has_terms_sequence d")
  case True
  then obtain m xs where d: "d = YMap m" and t: "map_of m ''terms'' = Some (YList xs)"
    by (cases d) (auto split: option.splits yaml.splits)
  have "m \<noteq> []" using t by auto
  moreover have "''terms'' \<in> fst ` set m" using t by (rule map_of_in_keys)
  ultimately have "tag_terms n xs [] = Inr ts"
    using assms(2) d t by (simp add: file_terms_def split: sum.splits)
  then show ?thesis using d t by (simp add: tag_terms_length file_doc_terms_def)
next
  case False
  then have skip: "\<not> py_truthy d \<or> py_in ''terms'' d = Inr False"
    using assms(1) by (simp add: loadable_file_def)
  then have "ts = []" using assms(2) file_terms_skipped [OF skip, of n] by simp
  moreover have "doc_terms d = []"
  proof (cases d)
    case (YMap m)
    show ?thesis
    proof (cases "map_of m ''terms''")
      case None
      then show ?thesis using YMap by simp
    next
      case (Some v)
      then have "''terms'' \<in> fst ` set m" by (rule map_of_in_keys)
      moreover have "m \<noteq> []" using Some by auto
      ultimately show ?thesis using skip YMap by simp
    qed
  qed simp_all
  ultimately show ?thesis by (simp add: file_doc_terms_def)
qed

lemma get_all_terms_loop_length:
  assumes "list_all (\<lambda>f. loadable_file (fst f, Some (snd f))) docs"
      and "get_all_terms_loop docs acc = Inr r"
  shows "length r = length acc + sum_list (map (\<lambda>f. length (file_doc_terms (fst f, Some (snd f)))) docs)"
  using assms
proof (induction docs arbitrary: acc)
  case Nil
  then show ?case by simp
next
  case (Cons f docs)
  obtain n d where f: "f = (n, d)" by (cases f)
  have l: "loadable_file (n, Some d)" using Cons.prems(1) f by simp
  have rest: "list_all (\<lambda>f. loadable_file (fst f, Some (snd f))) docs" using Cons.prems(1) by simp
  from Cons.prems(2) obtain ts where ts: "file_terms n d = Inr ts"
    and r: "get_all_terms_loop docs (acc @ ts) = Inr r"
    unfolding f get_all_terms_loop_Cons by (cases "file_terms n d") simp_all
  have "length r = length (acc @ ts) + sum_list (map (\<lambda>f. length (file_doc_terms (fst f, Some (snd f)))) docs)"
    by (rule Cons.IH [OF rest r])
  then show ?case using file_terms_length [OF l ts] f by simp
qed

lemma get_all_terms_length:
  assumes "distinct (map fst fs)" and "list_all loadable_file fs" and "get_all_terms fs = Inr terms"
  shows "length terms = sum_list (map (\<lambda>f. length (file_doc_terms f)) fs)"
proof -
  have some: "\<exists>d. snd f = Some d" if "f \<in> set fs" for f
    using assms(2) that by (cases "snd f") (auto simp: list_all_iff loadable_file_def)
  then have nn: "None \<notin> set (map snd fs)" by force
  let ?docs = "map (\<lambda>f. (fst f, the (snd f))) fs"
  have eq: "(fst f, Some (the (snd f))) = f" if "f \<in> set fs" for f
    using some [OF that] by (cases f) auto
  have a: "list_all (\<lambda>f. loadable_file (fst f, Some (snd f))) ?docs"
    using assms(2) eq by (simp add: list_all_iff)
  have b: "get_all_terms_loop ?docs [] = Inr terms"
    using assms(3) nn by (simp add: get_all_terms_def load_all_yaml_files_cases [OF assms(1)])
  have "map (\<lambda>f. length (file_doc_terms (fst f, Some (snd f)))) ?docs
          = map (\<lambda>f. length (file_doc_terms f)) fs"
    unfolding map_map comp_def fst_conv snd_conv
    by (rule map_cong [OF refl]) (simp add: eq)
  then show ?thesis using get_all_terms_loop_length [OF a b] by (simp only: list.size add_0)
qed

lemma test_minimum_term_count_eq:
  "get_all_terms fs = Inr terms \<Longrightarrow>
   test_minimum_term_count fs = Inr (if 100 \<le> length terms then Passed else Failed)"
  by (simp add: test_minimum_term_count_def)

subsection \<open>Minimum corpus size\<close>

text \<open>
  Claim C3. When the terms load, the minimum-size test fails exactly when fewer than 100
  terms were loaded and passes exactly when at least 100 were: 100 terms pass, 99 fail.
  A file whose \<^verbatim>\<open>terms\<close> list is empty, added anywhere among the files, leaves the
  loaded terms (and so the count and the outcome) unchanged. When every file has the
  expected shape (or is empty or without \<^verbatim>\<open>terms\<close>), the number of loaded terms is the
  sum over the files of the lengths of their \<^verbatim>\<open>terms\<close>.
\<close>

theorem minimum_term_count:
  assumes "get_all_terms fs = Inr terms"
  shows "(test_minimum_term_count fs = Inr Failed \<longleftrightarrow> length terms < 100)
       \<and> (test_minimum_term_count fs = Inr Passed \<longleftrightarrow> 100 \<le> length terms)
       \<and> (\<forall>fs1 fs2 name. fs = fs1 @ fs2 \<and> name \<notin> set (map fst fs) \<and> distinct (map fst fs) \<longrightarrow>
             get_all_terms (fs1 @ (name, Some (YMap [(''terms'', YList [])])) # fs2) = Inr terms)
       \<and> (distinct (map fst fs) \<and> list_all loadable_file fs \<longrightarrow>
             length terms = sum_list (map (\<lambda>f. length (file_doc_terms f)) fs))"
proof -
  have a: "test_minimum_term_count fs = Inr Failed \<longleftrightarrow> length terms < 100"
    using assms by (simp add: test_minimum_term_count_eq)
  have b: "test_minimum_term_count fs = Inr Passed \<longleftrightarrow> 100 \<le> length terms"
    using assms by (simp add: test_minimum_term_count_eq)
  have c: "get_all_terms (fs1 @ (name, Some (YMap [(''terms'', YList [])])) # fs2) = Inr terms"
    if "fs = fs1 @ fs2" "name \<notin> set (map fst fs)" "distinct (map fst fs)" for fs1 fs2 name
  proof -
    have "distinct (map fst (fs1 @ (name, Some (YMap [(''terms'', YList [])])) # fs2))"
      using that by auto
    moreover have "file_terms name (YMap [(''terms'', YList [])]) = Inr []"
      by (simp add: file_terms_def)
    ultimately show ?thesis
      using get_all_terms_skip_file assms that(1) by simp
  qed
  have d: "length terms = sum_list (map (\<lambda>f. length (file_doc_terms f)) fs)"
    if "distinct (map fst fs) \<and> list_all loadable_file fs"
    using that assms by (intro get_all_terms_length) simp_all
  show ?thesis using a b c d by blast
qed

lemma get_all_terms_corpus:
  "get_all_terms (corpus n) = Inr (replicate n [(''id'', YStr ''x''), (''_source_file'', YStr ''malware.yaml'')])"
  by (simp add: corpus_def get_all_terms_def load_all_yaml_files_def
      tag_terms_maps [of _ "replicate n d" for d, unfolded map_replicate])

text \<open>The theorem at a corpus of 100 terms, at one of 99, and with an empty file added.\<close>

theorem minimum_term_count_witness:
  "test_minimum_term_count (corpus 100) = Inr Passed
   \<and> test_minimum_term_count (corpus 99) = Inr Failed
   \<and> get_all_terms ([] @ (''empty.yaml'', Some (YMap [(''terms'', YList [])])) # corpus 99) = get_all_terms (corpus 99)"
proof -
  have a: "test_minimum_term_count (corpus 100) = Inr Passed"
    using minimum_term_count [OF get_all_terms_corpus [of 100]] by simp
  have b: "test_minimum_term_count (corpus 99) = Inr Failed"
    using minimum_term_count [OF get_all_terms_corpus [of 99]] by simp
  have "corpus 99 = [] @ corpus 99 \<and> ''empty.yaml'' \<notin> set (map fst (corpus 99)) \<and> distinct (map fst (corpus 99))"
    by (simp add: corpus_def)
  then have c: "get_all_terms ([] @ (''empty.yaml'', Some (YMap [(''terms'', YList [])])) # corpus 99) = get_all_terms (corpus 99)"
    using minimum_term_count [OF get_all_terms_corpus [of 99]] get_all_terms_corpus [of 99] by metis
  show ?thesis using a b c by blast
qed

section \<open>Uniqueness of ids\<close>

lemma term_ids_unique_loop_count:
  assumes "\<forall>t \<in> set terms. py_hashable (dict_get t ''id'' YNull)"
  shows "\<exists>ds. term_ids_unique_loop terms seen dups = Inr (dups @ ds) \<and>
              length ds + card (fst ` set seen \<union> set (map term_key terms))
                = length terms + card (fst ` set seen)"
  using assms
proof (induction terms arbitrary: seen dups)
  case Nil
  then show ?case by simp
next
  case (Cons t terms)
  let ?k = "term_key t"
  let ?S = "fst ` set seen"
  have h: "py_hashable (dict_get t ''id'' YNull)" using Cons.prems by simp
  have rest: "\<forall>t \<in> set terms. py_hashable (dict_get t ''id'' YNull)" using Cons.prems by simp
  show ?case
  proof (cases "map_of seen ?k")
    case None
    then have notin: "?k \<notin> ?S" by (simp add: map_of_eq_None_iff)
    let ?seen' = "seen @ [(?k, dict_get t ''_source_file'' YNull)]"
    obtain ds where ds: "term_ids_unique_loop terms ?seen' dups = Inr (dups @ ds)"
      and cnt: "length ds + card (fst ` set ?seen' \<union> set (map term_key terms))
                = length terms + card (fst ` set ?seen')"
      using Cons.IH [OF rest, of ?seen' dups] by blast
    have s': "fst ` set ?seen' = insert ?k ?S" by auto
    have "card (insert ?k ?S) = Suc (card ?S)" using notin by simp
    then have "length ds + card (?S \<union> set (map term_key (t # terms)))
                = length (t # terms) + card ?S"
      using cnt unfolding s' by simp
    moreover have "term_ids_unique_loop (t # terms) seen dups = Inr (dups @ ds)"
      using None h ds by (simp add: term_key_def Let_def)
    ultimately show ?thesis by blast
  next
    case (Some first)
    then have isin: "?k \<in> ?S" by (metis map_of_eq_None_iff option.distinct(1))
    let ?d = "DuplicateId (dict_get t ''id'' YNull) first (dict_get t ''_source_file'' YNull)"
    obtain ds where ds: "term_ids_unique_loop terms seen (dups @ [?d]) = Inr ((dups @ [?d]) @ ds)"
      and cnt: "length ds + card (?S \<union> set (map term_key terms)) = length terms + card ?S"
      using Cons.IH [OF rest, of seen "dups @ [?d]"] by blast
    have "?S \<union> set (map term_key (t # terms)) = ?S \<union> set (map term_key terms)"
      using isin by auto
    then have "length (?d # ds) + card (?S \<union> set (map term_key (t # terms)))
                = length (t # terms) + card ?S"
      using cnt by simp
    moreover have "term_ids_unique_loop (t # terms) seen dups = Inr (dups @ ?d # ds)"
      using Some h ds by (simp add: term_key_def Let_def)
    ultimately show ?thesis by blast
  qed
qed

lemma duplicate_ids_count:
  assumes "\<forall>t \<in> set terms. py_hashable (dict_get t ''id'' YNull)"
  shows "\<exists>ds. duplicate_ids terms = Inr ds \<and>
              length ds + card (set (map term_key terms)) = length terms"
  using term_ids_unique_loop_count [OF assms, of "[]" "[]"]
  by (simp add: duplicate_ids_def)

lemma shared_id_iff:
  "\<not> distinct (map term_key terms) \<longleftrightarrow>
   (\<exists>i j. i < j \<and> j < length terms \<and>
      py_eq (dict_get (terms ! i) ''id'' YNull) (dict_get (terms ! j) ''id'' YNull))"
proof -
  have "\<not> distinct (map term_key terms) \<longleftrightarrow>
        (\<exists>i j. i < length terms \<and> j < length terms \<and> i \<noteq> j \<and> term_key (terms ! i) = term_key (terms ! j))"
    by (auto simp: distinct_conv_nth)
  also have "\<dots> \<longleftrightarrow> (\<exists>i j. i < j \<and> j < length terms \<and> term_key (terms ! i) = term_key (terms ! j))"
    (is "?A \<longleftrightarrow> ?B")
  proof
    assume ?A
    then obtain i j where ij: "i < length terms" "j < length terms" "i \<noteq> j"
        "term_key (terms ! i) = term_key (terms ! j)" by blast
    show ?B
    proof (cases "i < j")
      case True
      then show ?thesis using ij by blast
    next
      case False
      then have "j < i" using ij(3) by simp
      then show ?thesis using ij by metis
    qed
  next
    assume ?B
    then show ?A by (metis less_trans nat_neq_iff)
  qed
  finally show ?thesis by (simp add: term_key_def py_eq_def)
qed

lemma dict_get_update_other:
  "k \<noteq> k' \<Longrightarrow> dict_get (AList.update k v t) k' d = dict_get t k' d"
  by (simp add: dict_get_def update_conv')

lemma dict_get_update_same: "dict_get (AList.update k v t) k d = v"
  by (simp add: dict_get_def update_conv')

lemma dict_get_Some: "map_of t k = Some v \<Longrightarrow> dict_get t k d = v"
  by (simp add: dict_get_def)

lemma file_terms_maps:
  assumes "map_of m ''terms'' = Some (YList (map YMap ts))"
  shows "file_terms n (YMap m) = Inr (map (AList.update ''_source_file'' (YStr n)) ts)"
proof -
  have "m \<noteq> []" using assms by auto
  moreover have "''terms'' \<in> fst ` set m" using assms by (metis map_of_eq_None_iff option.distinct(1))
  ultimately show ?thesis using assms
    by (simp add: file_terms_def tag_terms_maps)
qed

lemma get_all_terms_two_files:
  assumes "n1 \<noteq> n2"
  shows "get_all_terms [(n1, Some d1), (n2, Some d2)] =
     (case file_terms n1 d1 of Inl e \<Rightarrow> Inl e
      | Inr ts1 \<Rightarrow> (case file_terms n2 d2 of Inl e \<Rightarrow> Inl e | Inr ts2 \<Rightarrow> Inr (ts1 @ ts2)))"
  using assms
  by (simp add: get_all_terms_def load_all_yaml_files_def get_all_terms_loop_Cons
      del: get_all_terms_loop.simps(2) split: sum.splits)

lemma scenario_duplicate_apt:
  assumes "n1 \<noteq> n2"
      and "map_of m1 ''terms'' = Some (YList [YMap t1])"
      and "map_of m2 ''terms'' = Some (YList [YMap t2])"
      and "map_of t1 ''id'' = Some (YStr ''apt'')"
      and "map_of t2 ''id'' = Some (YStr ''apt'')"
  shows "\<exists>terms. get_all_terms [(n1, Some (YMap m1)), (n2, Some (YMap m2))] = Inr terms \<and>
           duplicate_ids terms = Inr [DuplicateId (YStr ''apt'') (YStr n1) (YStr n2)]"
proof -
  let ?t1 = "AList.update ''_source_file'' (YStr n1) t1"
  let ?t2 = "AList.update ''_source_file'' (YStr n2) t2"
  have f1: "file_terms n1 (YMap m1) = Inr [?t1]"
    using file_terms_maps [of m1 "[t1]" n1] assms(2) by simp
  have f2: "file_terms n2 (YMap m2) = Inr [?t2]"
    using file_terms_maps [of m2 "[t2]" n2] assms(3) by simp
  have load: "get_all_terms [(n1, Some (YMap m1)), (n2, Some (YMap m2))] = Inr [?t1, ?t2]"
    by (simp add: get_all_terms_two_files [OF assms(1)] f1 f2)
  have i1: "dict_get ?t1 ''id'' YNull = YStr ''apt''"
    using assms(4) by (simp add: dict_get_update_other dict_get_Some)
  have i2: "dict_get ?t2 ''id'' YNull = YStr ''apt''"
    using assms(5) by (simp add: dict_get_update_other dict_get_Some)
  have "duplicate_ids [?t1, ?t2] = Inr [DuplicateId (YStr ''apt'') (YStr n1) (YStr n2)]"
    by (simp add: duplicate_ids_def i1 i2 dict_get_update_same Let_def)
  then show ?thesis using load by blast
qed

text \<open>
  Claim C1, amended. When every id can be hashed (it is absent or a scalar), the uniqueness test
  collects one finding for each occurrence of an id beyond its first, that is as many as
  there are terms less the number of distinct ids; there is a finding, and the test
  fails, exactly when two terms at different positions have equal ids. For two files
  with one term of id \<^verbatim>\<open>apt\<close> each, there is exactly one finding, and it names both files.
\<close>

theorem term_ids_unique:
  "((\<forall>t \<in> set terms. py_hashable (dict_get t ''id'' YNull)) \<longrightarrow>
      (\<exists>dups. duplicate_ids terms = Inr dups
         \<and> length dups = length terms - card ((\<lambda>t. canon (dict_get t ''id'' YNull)) ` set terms)
         \<and> (dups \<noteq> [] \<longleftrightarrow>
              (\<exists>i j. i < j \<and> j < length terms \<and>
                 py_eq (dict_get (terms ! i) ''id'' YNull) (dict_get (terms ! j) ''id'' YNull)))
         \<and> test_term_ids_unique_globally terms = Inr (if dups = [] then Passed else Failed)))
   \<and> (\<forall>n1 n2 m1 m2 t1 t2.
         n1 \<noteq> n2 \<and> map_of m1 ''terms'' = Some (YList [YMap t1])
         \<and> map_of m2 ''terms'' = Some (YList [YMap t2])
         \<and> map_of t1 ''id'' = Some (YStr ''apt'') \<and> map_of t2 ''id'' = Some (YStr ''apt'') \<longrightarrow>
         (\<exists>loaded. get_all_terms [(n1, Some (YMap m1)), (n2, Some (YMap m2))] = Inr loaded \<and>
            duplicate_ids loaded = Inr [DuplicateId (YStr ''apt'') (YStr n1) (YStr n2)]))"
proof (intro conjI impI allI)
  assume h: "\<forall>t \<in> set terms. py_hashable (dict_get t ''id'' YNull)"
  obtain dups where d: "duplicate_ids terms = Inr dups"
    and cnt: "length dups + card (set (map term_key terms)) = length terms"
    using duplicate_ids_count [OF h] by blast
  have img: "set (map term_key terms) = (\<lambda>t. canon (dict_get t ''id'' YNull)) ` set terms"
    by (auto simp: term_key_def)
  have len: "length dups = length terms - card ((\<lambda>t. canon (dict_get t ''id'' YNull)) ` set terms)"
    using cnt img by simp
  have "dups \<noteq> [] \<longleftrightarrow> card (set (map term_key terms)) \<noteq> length (map term_key terms)"
    using cnt by auto
  also have "\<dots> \<longleftrightarrow> \<not> distinct (map term_key terms)"
    using card_distinct distinct_card by metis
  finally have iff: "dups \<noteq> [] \<longleftrightarrow>
      (\<exists>i j. i < j \<and> j < length terms \<and>
         py_eq (dict_get (terms ! i) ''id'' YNull) (dict_get (terms ! j) ''id'' YNull))"
    by (simp only: shared_id_iff)
  have out: "test_term_ids_unique_globally terms = Inr (if dups = [] then Passed else Failed)"
    using d by (simp add: test_term_ids_unique_globally_def assert_empty_def)
  show "\<exists>dups. duplicate_ids terms = Inr dups
         \<and> length dups = length terms - card ((\<lambda>t. canon (dict_get t ''id'' YNull)) ` set terms)
         \<and> (dups \<noteq> [] \<longleftrightarrow>
              (\<exists>i j. i < j \<and> j < length terms \<and>
                 py_eq (dict_get (terms ! i) ''id'' YNull) (dict_get (terms ! j) ''id'' YNull)))
         \<and> test_term_ids_unique_globally terms = Inr (if dups = [] then Passed else Failed)"
    using d len iff out by blast
next
  fix n1 n2 :: string and m1 m2 t1 t2 :: dict
  assume a: "n1 \<noteq> n2 \<and> map_of m1 ''terms'' = Some (YList [YMap t1])
         \<and> map_of m2 ''terms'' = Some (YList [YMap t2])
         \<and> map_of t1 ''id'' = Some (YStr ''apt'') \<and> map_of t2 ''id'' = Some (YStr ''apt'')"
  show "\<exists>loaded. get_all_terms [(n1, Some (YMap m1)), (n2, Some (YMap m2))] = Inr loaded \<and>
            duplicate_ids loaded = Inr [DuplicateId (YStr ''apt'') (YStr n1) (YStr n2)]"
    using scenario_duplicate_apt a by blast
qed

text \<open>The theorem at two terms of id \<^verbatim>\<open>apt\<close>, which are what the two files load to.\<close>

theorem term_ids_unique_witness:
  "duplicate_ids two_apt_terms = 
     Inr [DuplicateId (YStr ''apt'') (YStr ''malware.yaml'') (YStr ''threat_actors.yaml'')]
   \<and> test_term_ids_unique_globally two_apt_terms = Inr Failed
   \<and> get_all_terms
        [(''malware.yaml'', Some (YMap [(''terms'', YList [YMap [(''id'', YStr ''apt'')]])])),
         (''threat_actors.yaml'', Some (YMap [(''terms'', YList [YMap [(''id'', YStr ''apt'')]])]))]
       = Inr two_apt_terms"
proof -
  have h: "\<forall>t \<in> set two_apt_terms. py_hashable (dict_get t ''id'' YNull)"
    by (simp add: two_apt_terms_def dict_get_def)
  obtain dups where d: "duplicate_ids two_apt_terms = Inr dups"
    and o: "test_term_ids_unique_globally two_apt_terms = Inr (if dups = [] then Passed else Failed)"
    using term_ids_unique [of two_apt_terms, THEN conjunct1, THEN mp, OF h] by blast
  have e: "duplicate_ids two_apt_terms =
     Inr [DuplicateId (YStr ''apt'') (YStr ''malware.yaml'') (YStr ''threat_actors.yaml'')]"
    by (simp add: duplicate_ids_def two_apt_terms_def dict_get_def)
  have l: "get_all_terms
        [(''malware.yaml'', Some (YMap [(''terms'', YList [YMap [(''id'', YStr ''apt'')]])])),
         (''threat_actors.yaml'', Some (YMap [(''terms'', YList [YMap [(''id'', YStr ''apt'')]])]))]
       = Inr two_apt_terms"
    by (simp add: get_all_terms_def load_all_yaml_files_def two_apt_terms_def)
  show ?thesis using d o e l by auto
qed

text \<open>
  Claim C1 as the specification states it fails: a single term whose id is a list is
  loaded, no two terms share an id, and the uniqueness test raises instead of passing.
\<close>

theorem term_ids_unique_counterexample:
  "get_all_terms [list_id_file] = Inr [list_id_term]
   \<and> duplicate_ids [list_id_term] = Inl TypeError
   \<and> test_term_ids_unique_globally [list_id_term] = Inl TypeError"
  by (simp add: list_id_file_def list_id_term_def get_all_terms_def load_all_yaml_files_def
      duplicate_ids_def test_term_ids_unique_globally_def dict_get_def)

section \<open>Format of ids and of reference URLs\<close>

lemma references_loop_eq:
  "references_loop src tid refs acc =
     acc @ map (\<lambda>kv. InvalidUrl src tid (fst kv)) (filter (\<lambda>kv. reported_url (snd kv)) refs)"
proof (induction refs arbitrary: acc)
  case Nil
  then show ?case by simp
next
  case (Cons kv refs)
  obtain k v where kv: "kv = (k, v)" by (cases kv)
  show ?case unfolding kv by (cases v) (simp_all add: Cons.IH)
qed

lemma term_invalid_urls_eq:
  "term_invalid_urls t =
     (case dict_get t ''references'' (YMap []) of
        YMap refs \<Rightarrow>
          map (\<lambda>kv. InvalidUrl (dict_get t ''_source_file'' (YStr ''unknown''))
                        (dict_get t ''id'' (YStr ''unknown'')) (fst kv))
            (filter (\<lambda>kv. reported_url (snd kv)) refs)
      | _ \<Rightarrow> [])"
  by (simp add: term_invalid_urls_def references_loop_eq Let_def split: yaml.splits)

lemma reference_urls_loop_eq:
  "reference_urls_loop terms acc = acc @ concat (map term_invalid_urls terms)"
proof (induction terms arbitrary: acc)
  case Nil
  then show ?case by simp
next
  case (Cons t terms)
  have "reference_urls_loop (t # terms) acc = reference_urls_loop terms (acc @ term_invalid_urls t)"
    by (simp add: term_invalid_urls_eq references_loop_eq Let_def split: yaml.splits)
  then show ?case by (simp add: Cons.IH)
qed

lemma invalid_urls_eq: "invalid_urls terms = concat (map term_invalid_urls terms)"
  by (simp add: invalid_urls_def reference_urls_loop_eq)

lemma id_pattern_match_iff:
  "id_pattern_match s \<longleftrightarrow>
     (\<exists>c cs. is_lower c \<and> list_all is_id_char cs \<and> (s = c # cs \<or> s = c # cs @ [CHR 0x0A]))"
proof
  assume m: "id_pattern_match s"
  then obtain c cs where s: "s = c # cs" and l: "is_lower c"
    and r: "dropWhile is_id_char cs = [] \<or> dropWhile is_id_char cs = [CHR 0x0A]"
    by (auto simp: id_pattern_match_def Let_def split: list.splits)
  have all: "list_all is_id_char (takeWhile is_id_char cs)"
    unfolding list_all_iff using set_takeWhileD by metis
  from r show "\<exists>c cs. is_lower c \<and> list_all is_id_char cs \<and> (s = c # cs \<or> s = c # cs @ [CHR 0x0A])"
  proof
    assume "dropWhile is_id_char cs = []"
    then have "cs = takeWhile is_id_char cs" by (metis append_Nil2 takeWhile_dropWhile_id)
    then show ?thesis using s l all by metis
  next
    assume "dropWhile is_id_char cs = [CHR 0x0A]"
    then have "cs = takeWhile is_id_char cs @ [CHR 0x0A]" by (metis takeWhile_dropWhile_id)
    then show ?thesis using s l all by metis
  qed
next
  assume "\<exists>c cs. is_lower c \<and> list_all is_id_char cs \<and> (s = c # cs \<or> s = c # cs @ [CHR 0x0A])"
  then obtain c cs where l: "is_lower c" and a: "list_all is_id_char cs"
    and s: "s = c # cs \<or> s = c # cs @ [CHR 0x0A]" by blast
  have nl: "\<not> is_id_char (CHR 0x0A)" by (simp add: is_id_char_def is_lower_def is_digit_def)
  have d1: "dropWhile is_id_char cs = []" using a by (simp add: list_all_iff)
  have d2: "dropWhile is_id_char (cs @ [CHR 0x0A]) = [CHR 0x0A]"
    using a nl by (simp add: list_all_iff dropWhile_append2)
  from s show "id_pattern_match s"
    using l d1 d2 by (auto simp: id_pattern_match_def Let_def)
qed

text \<open>
  Claim C6. The id \<^verbatim>\<open>apt\<close> followed by a newline is not made of lower-case letters,
  digits and underscores only, and the format test accepts it: no finding, and the test
  passes.
\<close>

theorem id_format_accepts_trailing_newline:
  "\<not> list_all is_id_char (''apt'' @ [CHR 0x0A])
   \<and> id_pattern_match (''apt'' @ [CHR 0x0A])
   \<and> invalid_ids [newline_id_term] = Inr []
   \<and> test_term_id_format [newline_id_term] = Inr Passed"
  by (simp add: test_term_id_format_def invalid_ids_def newline_id_term_def dict_get_def
      id_pattern_match_def is_id_char_def is_lower_def is_digit_def assert_empty_def)


lemma invalid_urls_skip_term:
  "term_invalid_urls t = term_invalid_urls t' \<Longrightarrow>
   invalid_urls (ts1 @ t # ts2) = invalid_urls (ts1 @ t' # ts2)"
  by (simp add: invalid_urls_eq)

lemma invalid_urls_drop_term:
  "term_invalid_urls t = [] \<Longrightarrow> invalid_urls (ts1 @ t # ts2) = invalid_urls (ts1 @ ts2)"
  by (simp add: invalid_urls_eq)

text \<open>
  Claim C10. A term whose \<open>references\<close> is not a dict adds no finding. In a dict of
  references, an entry whose value is \<^verbatim>\<open>None\<close>, the empty string or not a string can be
  removed without changing the findings. Every finding comes from an entry whose value
  is a non-empty string that the pattern does not match.
\<close>

theorem url_check_skips_uninterpretable:
  "((\<forall>refs. dict_get t ''references'' (YMap []) \<noteq> YMap refs) \<longrightarrow>
       invalid_urls (ts1 @ t # ts2) = invalid_urls (ts1 @ ts2))
   \<and> (dict_get t ''references'' (YMap []) = YMap (r1 @ (k, v) # r2) \<and>
        (v = YNull \<or> v = YStr [] \<or> (\<forall>s. v \<noteq> YStr s)) \<longrightarrow>
       invalid_urls (ts1 @ t # ts2) =
       invalid_urls (ts1 @ AList.update ''references'' (YMap (r1 @ r2)) t # ts2))
   \<and> (\<forall>f \<in> set (invalid_urls ts).
        \<exists>t' \<in> set ts. \<exists>refs key s.
          dict_get t' ''references'' (YMap []) = YMap refs \<and> (key, YStr s) \<in> set refs \<and>
          s \<noteq> [] \<and> \<not> URL_PATTERN_match s \<and>
          f = InvalidUrl (dict_get t' ''_source_file'' (YStr ''unknown''))
                (dict_get t' ''id'' (YStr ''unknown'')) key)"
proof (intro conjI impI ballI)
  assume "\<forall>refs. dict_get t ''references'' (YMap []) \<noteq> YMap refs"
  then have "term_invalid_urls t = []"
    by (simp add: term_invalid_urls_eq split: yaml.splits)
  then show "invalid_urls (ts1 @ t # ts2) = invalid_urls (ts1 @ ts2)"
    by (rule invalid_urls_drop_term)
next
  assume a: "dict_get t ''references'' (YMap []) = YMap (r1 @ (k, v) # r2) \<and>
        (v = YNull \<or> v = YStr [] \<or> (\<forall>s. v \<noteq> YStr s))"
  then have nr: "\<not> reported_url v" by (cases v) auto
  let ?t' = "AList.update ''references'' (YMap (r1 @ r2)) t"
  have r': "dict_get ?t' ''references'' (YMap []) = YMap (r1 @ r2)"
    by (simp add: dict_get_def update_conv')
  have s': "dict_get ?t' ''_source_file'' (YStr ''unknown'') = dict_get t ''_source_file'' (YStr ''unknown'')"
    by (simp add: dict_get_def update_conv')
  have i': "dict_get ?t' ''id'' (YStr ''unknown'') = dict_get t ''id'' (YStr ''unknown'')"
    by (simp add: dict_get_def update_conv')
  have "term_invalid_urls t = term_invalid_urls ?t'"
    using a nr by (simp add: term_invalid_urls_eq r' s' i')
  then show "invalid_urls (ts1 @ t # ts2) = invalid_urls (ts1 @ ?t' # ts2)"
    by (rule invalid_urls_skip_term)
next
  fix f assume "f \<in> set (invalid_urls ts)"
  then obtain t' where t': "t' \<in> set ts" and f: "f \<in> set (term_invalid_urls t')"
    by (auto simp: invalid_urls_eq)
  from f obtain refs where refs: "dict_get t' ''references'' (YMap []) = YMap refs"
    by (cases "dict_get t' ''references'' (YMap [])") (auto simp: term_invalid_urls_eq)
  from f refs obtain kv where kv: "kv \<in> set refs" "reported_url (snd kv)"
    and fe: "f = InvalidUrl (dict_get t' ''_source_file'' (YStr ''unknown''))
                (dict_get t' ''id'' (YStr ''unknown'')) (fst kv)"
    by (auto simp: term_invalid_urls_eq)
  from kv(2) obtain s where s: "snd kv = YStr s" "s \<noteq> []" "\<not> URL_PATTERN_match s"
    by (cases "snd kv") auto
  have "(fst kv, YStr s) \<in> set refs" using kv(1) s(1) by (metis prod.collapse)
  then show "\<exists>t' \<in> set ts. \<exists>refs key s.
          dict_get t' ''references'' (YMap []) = YMap refs \<and> (key, YStr s) \<in> set refs \<and>
          s \<noteq> [] \<and> \<not> URL_PATTERN_match s \<and>
          f = InvalidUrl (dict_get t' ''_source_file'' (YStr ''unknown''))
                (dict_get t' ''id'' (YStr ''unknown'')) key"
    using t' refs s fe by blast
qed

text \<open>
  The theorem at a term whose \<open>references\<close> is a list, at a term with a \<^verbatim>\<open>None\<close>
  reference, and at the findings of the term with the reference \<^verbatim>\<open>not-a-url\<close>.
\<close>

theorem url_check_skips_uninterpretable_witness:
  "invalid_urls ([osint_term] @ list_references_term # []) = invalid_urls ([osint_term] @ [])
   \<and> invalid_urls ([] @ mixed_references_term # []) =
       invalid_urls ([] @ AList.update ''references''
          (YMap ([(''wiki'', YStr ''https://example.org/osint'')] @ [])) mixed_references_term # [])
   \<and> invalid_urls [osint_term] = [InvalidUrl (YStr ''technologies.yaml'') (YStr ''osint_tools'') ''osint'']
   \<and> \<not> URL_PATTERN_match ''not-a-url''"
proof -
  have a: "\<forall>refs. dict_get list_references_term ''references'' (YMap []) \<noteq> YMap refs"
    by (simp add: list_references_term_def dict_get_def)
  have b: "dict_get mixed_references_term ''references'' (YMap [])
             = YMap ([(''wiki'', YStr ''https://example.org/osint'')] @ (''draft'', YNull) # [])
           \<and> (YNull = YNull \<or> YNull = YStr [] \<or> (\<forall>s. YNull \<noteq> YStr s))"
    by (simp add: mixed_references_term_def dict_get_def)
  have c: "invalid_urls [osint_term] = [InvalidUrl (YStr ''technologies.yaml'') (YStr ''osint_tools'') ''osint'']"
    by (simp add: invalid_urls_def osint_term_def dict_get_def URL_PATTERN_match_def starts_url_def)
  have r: "dict_get osint_term ''references'' (YMap []) = YMap [(''osint'', YStr ''not-a-url'')]"
    by (simp add: osint_term_def dict_get_def)
  have "InvalidUrl (YStr ''technologies.yaml'') (YStr ''osint_tools'') ''osint''
          \<in> set (invalid_urls [osint_term])"
    by (simp add: c)
  then obtain t' refs key s where
      "t' \<in> set [osint_term]" "dict_get t' ''references'' (YMap []) = YMap refs"
      "(key, YStr s) \<in> set refs" "\<not> URL_PATTERN_match s"
    using url_check_skips_uninterpretable [where ts = "[osint_term]", THEN conjunct2, THEN conjunct2]
    by blast
  then have d: "\<not> URL_PATTERN_match ''not-a-url''"
    using r by auto
  show ?thesis
    using url_check_skips_uninterpretable
            [where t = list_references_term and ?ts1.0 = "[osint_term]" and ?ts2.0 = "[]", THEN conjunct1, THEN mp, OF a]
          url_check_skips_uninterpretable
            [where t = mixed_references_term and ?ts1.0 = "[]" and ?ts2.0 = "[]"
               and ?r1.0 = "[(''wiki'', YStr ''https://example.org/osint'')]" and ?r2.0 = "[]"
               and k = "''draft''" and v = YNull,
             THEN conjunct2, THEN conjunct1, THEN mp, OF b]
          c d
    by simp
qed




section \<open>Structure of the files\<close>

lemma has_terms_sequence_step:
  "(case py_in ''terms'' data of
      Inl e \<Rightarrow> Inl e
    | Inr False \<Rightarrow> Inr Failed
    | Inr True \<Rightarrow>
       (case py_getitem data ''terms'' of
          Inl e \<Rightarrow> Inl e
        | Inr v \<Rightarrow> if is_list v then r else Inr Failed)) = Inr Passed
   \<longleftrightarrow> has_terms_sequence data \<and> r = Inr Passed"
proof (cases data)
  case (YMap m)
  show ?thesis
  proof (cases "map_of m ''terms''")
    case None
    then have "''terms'' \<notin> fst ` set m" by (simp add: map_of_eq_None_iff)
    then show ?thesis using YMap None by simp
  next
    case (Some v)
    then have "''terms'' \<in> fst ` set m" by (rule map_of_in_keys)
    then show ?thesis using YMap Some by (cases v) simp_all
  qed
qed (simp_all split: bool.splits)

lemma test_yaml_has_terms_key_Passed:
  "test_yaml_has_terms_key d = Inr Passed \<longleftrightarrow> list_all (\<lambda>f. has_terms_sequence (snd f)) d"
proof (induction d)
  case Nil
  then show ?case by simp
next
  case (Cons f d)
  obtain n data where f: "f = (n, data)" by (cases f)
  show ?case unfolding f test_yaml_has_terms_key.simps has_terms_sequence_step
    using Cons.IH by simp
qed

lemma run_test_yaml_has_terms_key_Passed:
  assumes "distinct (map fst fs)"
  shows "run_test_yaml_has_terms_key fs = Inr Passed \<longleftrightarrow>
         list_all (\<lambda>f. case snd f of None \<Rightarrow> False | Some d \<Rightarrow> has_terms_sequence d) fs"
proof (cases "None \<in> set (map snd fs)")
  case True
  then obtain f where "f \<in> set fs" "snd f = None" by auto
  then have "\<not> list_all (\<lambda>f. case snd f of None \<Rightarrow> False | Some d \<Rightarrow> has_terms_sequence d) fs"
    by (force simp: list_all_iff)
  then show ?thesis
    using True by (simp add: run_test_yaml_has_terms_key_def load_all_yaml_files_cases [OF assms])
next
  case False
  then have some: "\<And>f. f \<in> set fs \<Longrightarrow> \<exists>d. snd f = Some d"
    by (metis image_eqI list.set_map not_Some_eq)
  have "has_terms_sequence (the (snd f)) \<longleftrightarrow>
          (case snd f of None \<Rightarrow> False | Some d \<Rightarrow> has_terms_sequence d)"
    if "f \<in> set fs" for f
    using some [OF that] by auto
  then have "list_all (\<lambda>f. has_terms_sequence (snd f)) (map (\<lambda>f. (fst f, the (snd f))) fs) \<longleftrightarrow>
         list_all (\<lambda>f. case snd f of None \<Rightarrow> False | Some d \<Rightarrow> has_terms_sequence d) fs"
    by (simp add: list_all_iff)
  then show ?thesis
    using False
    by (simp add: run_test_yaml_has_terms_key_def load_all_yaml_files_cases [OF assms]
        test_yaml_has_terms_key_Passed del: set_map)
qed

text \<open>
  Claim C7, amended. The structure test passes exactly when every file parses to a
  mapping with a key \<^verbatim>\<open>terms\<close> whose value is a sequence; any other file makes it fail or
  raise. Loading leaves out a file whose document is empty or has no \<^verbatim>\<open>terms\<close>, and loads
  from the other files what it loads without that file.
\<close>

theorem structure_checked_and_missing_terms_skipped:
  assumes "distinct (map fst (fs1 @ (name, Some d) # fs2))"
  shows "(run_test_yaml_has_terms_key (fs1 @ (name, Some d) # fs2) = Inr Passed \<longleftrightarrow>
            list_all (\<lambda>f. case snd f of None \<Rightarrow> False | Some doc \<Rightarrow> has_terms_sequence doc)
              (fs1 @ (name, Some d) # fs2))
       \<and> (\<not> py_truthy d \<or> py_in ''terms'' d = Inr False \<longrightarrow>
            \<not> has_terms_sequence d \<and>
            get_all_terms (fs1 @ (name, Some d) # fs2) = get_all_terms (fs1 @ fs2))"
proof (intro conjI impI)
  show "run_test_yaml_has_terms_key (fs1 @ (name, Some d) # fs2) = Inr Passed \<longleftrightarrow>
            list_all (\<lambda>f. case snd f of None \<Rightarrow> False | Some doc \<Rightarrow> has_terms_sequence doc)
              (fs1 @ (name, Some d) # fs2)"
    by (rule run_test_yaml_has_terms_key_Passed [OF assms])
next
  assume s: "\<not> py_truthy d \<or> py_in ''terms'' d = Inr False"
  show "\<not> has_terms_sequence d"
  proof
    assume "has_terms_sequence d"
    then obtain m ts where d: "d = YMap m" and t: "map_of m ''terms'' = Some (YList ts)"
      by (cases d) (auto split: option.splits yaml.splits)
    have "m \<noteq> []" using t by auto
    moreover have "''terms'' \<in> fst ` set m" using t by (rule map_of_in_keys)
    ultimately show False using s d by simp
  qed
next
  assume s: "\<not> py_truthy d \<or> py_in ''terms'' d = Inr False"
  show "get_all_terms (fs1 @ (name, Some d) # fs2) = get_all_terms (fs1 @ fs2)"
    by (rule get_all_terms_skip_file [OF assms file_terms_skipped [OF s]])
qed

text \<open>The theorem at a file without \<^verbatim>\<open>terms\<close> beside a well-formed file.\<close>

theorem structure_checked_and_missing_terms_skipped_witness:
  "run_test_yaml_has_terms_key ([one_term_file] @ (''notes.yaml'', Some (YMap [(''title'', YStr ''notes'')])) # []) \<noteq> Inr Passed
   \<and> get_all_terms ([one_term_file] @ (''notes.yaml'', Some (YMap [(''title'', YStr ''notes'')])) # [])
       = get_all_terms ([one_term_file] @ [])
   \<and> get_all_terms ([one_term_file] @ []) = Inr [[(''id'', YStr ''worm''), (''_source_file'', YStr ''malware.yaml'')]]"
proof -
  have d: "distinct (map fst ([one_term_file] @ (''notes.yaml'', Some (YMap [(''title'', YStr ''notes'')])) # []))"
    by (simp add: one_term_file_def)
  have s: "\<not> py_truthy (YMap [(''title'', YStr ''notes'')]) \<or> py_in ''terms'' (YMap [(''title'', YStr ''notes'')]) = Inr False"
    by simp
  note th = structure_checked_and_missing_terms_skipped [OF d]
  have a: "run_test_yaml_has_terms_key ([one_term_file] @ (''notes.yaml'', Some (YMap [(''title'', YStr ''notes'')])) # []) \<noteq> Inr Passed"
    unfolding th [THEN conjunct1] by (simp add: one_term_file_def)
  have b: "get_all_terms ([one_term_file] @ (''notes.yaml'', Some (YMap [(''title'', YStr ''notes'')])) # [])
       = get_all_terms ([one_term_file] @ [])"
    using th [THEN conjunct2, THEN mp, OF s] by (rule conjunct2)
  have c: "get_all_terms ([one_term_file] @ []) = Inr [[(''id'', YStr ''worm''), (''_source_file'', YStr ''malware.yaml'')]]"
    by (simp add: one_term_file_def get_all_terms_def load_all_yaml_files_def)
  show ?thesis using a b c by (intro conjI)
qed

text \<open>
  Claim C7 as the specification states it fails: a file whose \<^verbatim>\<open>terms\<close> is \<^verbatim>\<open>null\<close> is reported by the
  structure test, but loading raises instead of leaving it out, and the term of the
  well-formed file beside it is not loaded.
\<close>

theorem structure_checked_and_missing_terms_skipped_counterexample:
  "\<not> has_terms_sequence (YMap [(''terms'', YNull)])
   \<and> run_test_yaml_has_terms_key [null_terms_file, one_term_file] = Inr Failed
   \<and> get_all_terms [null_terms_file, one_term_file] = Inl TypeError
   \<and> get_all_terms [one_term_file] = Inr [[(''id'', YStr ''worm''), (''_source_file'', YStr ''malware.yaml'')]]"
  by (simp add: null_terms_file_def one_term_file_def get_all_terms_def load_all_yaml_files_def
      run_test_yaml_has_terms_key_def)

section \<open>Validity of categories\<close>

lemma category_is_valid_loop_eq:
  "category_is_valid_loop terms valid acc =
     acc @ map category_finding
             (filter (\<lambda>t. \<not> py_list_contains valid (dict_get t ''category'' (YStr []))) terms)"
  by (induction terms arbitrary: acc) (simp_all add: Let_def category_finding_def)

lemma load_valid_categories_no_ids:
  "map_of data ''categories'' = None \<or> map_of data ''categories'' = Some (YList []) \<Longrightarrow>
   load_valid_categories (Some (Some (YMap data))) = Inr []"
  by (auto simp: dict_get_def)

text \<open>
  Claim C5, amended. With a non-empty list of category ids, the test records one finding
  for every term whose category is not in the list, and fails exactly when there is such
  a term. With an empty list it is skipped. The list is empty when the registry file does
  not exist, and when it is a mapping without \<^verbatim>\<open>categories\<close> or with an empty one; so the
  test with its fixtures is skipped in these cases and is the check against the ids
  otherwise.
\<close>

theorem category_validity:
  "(valid \<noteq> [] \<longrightarrow>
      category_is_valid_loop terms valid [] =
        map category_finding
          (filter (\<lambda>t. \<not> py_list_contains valid (dict_get t ''category'' (YStr []))) terms)
      \<and> (test_category_is_valid terms valid = Failed \<longleftrightarrow>
           (\<exists>t \<in> set terms. \<not> py_list_contains valid (dict_get t ''category'' (YStr []))))
      \<and> (test_category_is_valid terms valid = Passed \<longleftrightarrow>
           (\<forall>t \<in> set terms. py_list_contains valid (dict_get t ''category'' (YStr [])))))
   \<and> test_category_is_valid terms [] = Skipped
   \<and> load_valid_categories None = Inr []
   \<and> (map_of data ''categories'' = None \<or> map_of data ''categories'' = Some (YList []) \<longrightarrow>
        load_valid_categories (Some (Some (YMap data))) = Inr [])
   \<and> (get_all_terms fs = Inr terms \<and> load_valid_categories registry = Inr [] \<longrightarrow>
        run_test_category_is_valid fs registry = Inr Skipped)
   \<and> (get_all_terms fs = Inr terms \<and> load_valid_categories registry = Inr valid \<longrightarrow>
        run_test_category_is_valid fs registry = Inr (test_category_is_valid terms valid))"
proof (intro conjI impI)
  let ?bad = "filter (\<lambda>t. \<not> py_list_contains valid (dict_get t ''category'' (YStr []))) terms"
  show "category_is_valid_loop terms valid [] = map category_finding ?bad"
    by (simp add: category_is_valid_loop_eq)
  have e: "?bad = [] \<longleftrightarrow> (\<forall>t \<in> set terms. py_list_contains valid (dict_get t ''category'' (YStr [])))"
    by (simp add: filter_empty_conv)
  show "test_category_is_valid terms valid = Failed \<longleftrightarrow>
           (\<exists>t \<in> set terms. \<not> py_list_contains valid (dict_get t ''category'' (YStr [])))"
    if "valid \<noteq> []"
    using that e
    by (simp add: test_category_is_valid_def assert_empty_def category_is_valid_loop_eq)
  show "test_category_is_valid terms valid = Passed \<longleftrightarrow>
           (\<forall>t \<in> set terms. py_list_contains valid (dict_get t ''category'' (YStr [])))"
    if "valid \<noteq> []"
    using that e
    by (simp add: test_category_is_valid_def assert_empty_def category_is_valid_loop_eq)
  show "test_category_is_valid terms [] = Skipped"
    by (simp add: test_category_is_valid_def)
  show "load_valid_categories None = Inr []" by simp
  show "load_valid_categories (Some (Some (YMap data))) = Inr []"
    if "map_of data ''categories'' = None \<or> map_of data ''categories'' = Some (YList [])"
    using that by (rule load_valid_categories_no_ids)
  show "run_test_category_is_valid fs registry = Inr Skipped"
    if "get_all_terms fs = Inr terms \<and> load_valid_categories registry = Inr []"
    using that by (simp add: run_test_category_is_valid_def test_category_is_valid_def)
  show "run_test_category_is_valid fs registry = Inr (test_category_is_valid terms valid)"
    if "get_all_terms fs = Inr terms \<and> load_valid_categories registry = Inr valid"
    using that by (simp add: run_test_category_is_valid_def)
qed

lemma get_all_terms_unknown_category_file:
  "get_all_terms [unknown_category_file] =
     Inr [[(''id'', YStr ''worm''), (''category'', YStr ''nonexistent_cat''),
           (''_source_file'', YStr ''malware.yaml'')]]"
  by (simp add: unknown_category_file_def get_all_terms_def load_all_yaml_files_def)

lemma load_two_categories:
  "load_valid_categories (Some (Some two_categories)) = Inr [YStr ''attack_types'', YStr ''malware'']"
  by (simp add: two_categories_def dict_get_def)

text \<open>
  The theorem at a term of category \<^verbatim>\<open>nonexistent_cat\<close>: with a registry of two other
  categories the test fails, without a registry file it is skipped.
\<close>

theorem category_validity_witness:
  "run_test_category_is_valid [unknown_category_file] (Some (Some two_categories)) = Inr Failed
   \<and> run_test_category_is_valid [unknown_category_file] None = Inr Skipped"
proof -
  let ?t = "[(''id'', YStr ''worm''), (''category'', YStr ''nonexistent_cat''),
             (''_source_file'', YStr ''malware.yaml'')]"
  let ?valid = "[YStr ''attack_types'', YStr ''malware'']"
  note th = category_validity [where terms = "[?t]" and valid = ?valid
      and fs = "[unknown_category_file]"]
  have ne: "?valid \<noteq> []" by simp
  have bad: "\<exists>t \<in> set [?t]. \<not> py_list_contains ?valid (dict_get t ''category'' (YStr []))"
    by (simp add: py_list_contains_def py_eq_def dict_get_def)
  have f: "test_category_is_valid [?t] ?valid = Failed"
    using th [THEN conjunct1, THEN mp, OF ne, THEN conjunct2, THEN conjunct1] bad by (rule iffD2)
  have a: "run_test_category_is_valid [unknown_category_file] (Some (Some two_categories)) = Inr Failed"
    using th [where registry = "Some (Some two_categories)", THEN conjunct2, THEN conjunct2,
        THEN conjunct2, THEN conjunct2, THEN conjunct2, THEN mp,
        OF conjI [OF get_all_terms_unknown_category_file load_two_categories]]
    by (simp only: f)
  have b: "run_test_category_is_valid [unknown_category_file] None = Inr Skipped"
    using th [where registry = None, THEN conjunct2, THEN conjunct2,
        THEN conjunct2, THEN conjunct2, THEN conjunct1, THEN mp,
        OF conjI [OF get_all_terms_unknown_category_file load_valid_categories.simps(1)]] .
  show ?thesis by (rule conjI [OF a b])
qed

text \<open>
  Claim C5 as the specification states it fails: when the registry file exists and is not YAML, or is empty,
  the registry cannot be loaded and the test raises instead of being skipped.
\<close>

theorem category_validity_counterexample:
  "run_test_category_is_valid [unknown_category_file] (Some None) = Inl YAMLError
   \<and> run_test_category_is_valid [unknown_category_file] (Some (Some YNull)) = Inl AttributeError"
  by (simp add: run_test_category_is_valid_def get_all_terms_unknown_category_file)

section \<open>Related terms\<close>

lemma all_term_ids_loop_eq:
  assumes "\<forall>t \<in> set terms. py_truthy (dict_get t ''id'' YNull) \<longrightarrow> py_hashable (dict_get t ''id'' YNull)"
  shows "all_term_ids_loop terms acc =
     Inr (acc @ map (\<lambda>t. canon (dict_get t ''id'' YNull))
                  (filter (\<lambda>t. py_truthy (dict_get t ''id'' YNull)) terms))"
  using assms by (induction terms arbitrary: acc) (simp_all add: Let_def)

lemma related_loop_eq:
  assumes "list_all py_hashable related"
  shows "related_loop src tid related ids acc =
     Inr (acc @ map (MissingReference src tid) (filter (\<lambda>ref_id. canon ref_id \<notin> set ids) related))"
  using assms by (induction related arbitrary: acc) simp_all

lemma related_terms_loop_eq:
  assumes "\<forall>t \<in> set terms. list_all py_hashable (related_list t)"
  shows "related_terms_loop terms ids acc = Inr (acc @ concat (map (term_missing_references ids) terms))"
  using assms
proof (induction terms arbitrary: acc)
  case Nil
  then show ?case by simp
next
  case (Cons t terms)
  have h: "list_all py_hashable (related_list t)" using Cons.prems by simp
  have rest: "\<forall>t \<in> set terms. list_all py_hashable (related_list t)" using Cons.prems by simp
  show ?case
  proof (cases "dict_get t ''related_terms'' (YList [])")
    case (YList related)
    then have rl: "related_list t = related" by (simp add: related_list_def)
    show ?thesis
      using YList h rl
      by (simp add: Let_def related_loop_eq Cons.IH [OF rest] term_missing_references_def dangling_def)
  qed (simp_all add: Let_def Cons.IH [OF rest] term_missing_references_def dangling_def related_list_def)
qed

text \<open>
  Claim C4, amended. When every non-empty id and every entry of a \<open>related_terms\<close> list can be
  hashed (it is a scalar), the related-terms test passes, whatever it finds: the known
  ids are the non-empty ids of the terms, there is one missing reference for each entry
  of a \<open>related_terms\<close> list that is not a known id, and the warning is printed, with
  their number, exactly when there are more than 10 of them.
\<close>

theorem related_terms_never_fatal:
  assumes "\<forall>t \<in> set terms. py_truthy (dict_get t ''id'' YNull) \<longrightarrow> py_hashable (dict_get t ''id'' YNull)"
      and "\<forall>t \<in> set terms. list_all py_hashable (related_list t)"
  shows "\<exists>ids missing.
       all_term_ids terms = Inr ids
     \<and> set ids = (\<lambda>t. canon (dict_get t ''id'' YNull)) ` {t \<in> set terms. py_truthy (dict_get t ''id'' YNull)}
     \<and> missing_references terms ids = Inr missing
     \<and> missing = concat (map (term_missing_references ids) terms)
     \<and> length missing = sum_list (map (\<lambda>t. length (dangling ids t)) terms)
     \<and> run_test_related_terms_exist terms =
         Inr (Passed, if length missing > 10 then [MissingReferencesWarning (length missing)] else [])"
proof -
  let ?ids = "map (\<lambda>t. canon (dict_get t ''id'' YNull))
                (filter (\<lambda>t. py_truthy (dict_get t ''id'' YNull)) terms)"
  let ?missing = "concat (map (term_missing_references ?ids) terms)"
  have a: "all_term_ids terms = Inr ?ids"
    using all_term_ids_loop_eq [OF assms(1), of "[]"] by (simp add: all_term_ids_def)
  have b: "set ?ids = (\<lambda>t. canon (dict_get t ''id'' YNull)) ` {t \<in> set terms. py_truthy (dict_get t ''id'' YNull)}"
    by simp
  have c: "missing_references terms ?ids = Inr ?missing"
    using related_terms_loop_eq [OF assms(2), of ?ids "[]"] by (simp add: missing_references_def)
  have d: "length ?missing = sum_list (map (\<lambda>t. length (dangling ?ids t)) terms)"
    by (simp add: length_concat term_missing_references_def comp_def)
  have e: "run_test_related_terms_exist terms =
         Inr (Passed, if length ?missing > 10 then [MissingReferencesWarning (length ?missing)] else [])"
  proof -
    have "run_test_related_terms_exist terms = test_related_terms_exist terms ?ids"
      by (simp add: run_test_related_terms_exist_def a)
    also have "\<dots> = Inr (Passed, if ?missing \<noteq> [] \<and> length ?missing > 10
                         then [MissingReferencesWarning (length ?missing)] else [])"
      by (simp only: test_related_terms_exist_def c sum.case)
    also have "\<dots> = Inr (Passed, if length ?missing > 10
                         then [MissingReferencesWarning (length ?missing)] else [])"
    proof (cases "?missing = []")
      case True
      then have "length ?missing = 0" by (simp only: list.size)
      then show ?thesis by (simp only: True) simp
    next
      case False
      then show ?thesis by (simp only: simp_thms)
    qed
    finally show ?thesis .
  qed
  show ?thesis using a b c d e by blast
qed

lemma dangling_terms_fields:
  assumes "t \<in> set (dangling_terms n)"
  shows "dict_get t ''id'' YNull = YStr ''worm''" and "related_list t = [YStr ''ghost'']"
  using assms by (simp_all add: dangling_terms_def dict_get_def related_list_def)

lemma dangling_terms_hashable:
  "\<forall>t \<in> set (dangling_terms n). py_truthy (dict_get t ''id'' YNull) \<longrightarrow> py_hashable (dict_get t ''id'' YNull)"
  "\<forall>t \<in> set (dangling_terms n). list_all py_hashable (related_list t)"
  by (simp_all add: dangling_terms_fields)

lemma dangling_terms_count:
  assumes "set ids = (\<lambda>t. canon (dict_get t ''id'' YNull)) `
             {t \<in> set (dangling_terms n). py_truthy (dict_get t ''id'' YNull)}"
  shows "sum_list (map (\<lambda>t. length (dangling ids t)) (dangling_terms n)) = n"
proof -
  have "x \<noteq> canon (YStr ''ghost'')" if x: "x \<in> set ids" for x
  proof -
    obtain t where "t \<in> set (dangling_terms n)" "x = canon (dict_get t ''id'' YNull)"
      using x unfolding assms by blast
    then have "x = YStr ''worm''" by (simp add: dangling_terms_fields)
    then show ?thesis by simp
  qed
  then have g: "canon (YStr ''ghost'') \<notin> set ids" by blast
  have one: "length (dangling ids t) = 1" if "t \<in> set (dangling_terms n)" for t
    using g by (simp add: dangling_def dangling_terms_fields(2) [OF that])
  have "map (\<lambda>t. length (dangling ids t)) (dangling_terms n) = map (\<lambda>t. 1) (dangling_terms n)"
    by (rule map_cong [OF refl one])
  also have "sum_list \<dots> = length (dangling_terms n)"
    by (simp add: sum_list_triv)
  finally show ?thesis by (simp add: dangling_terms_def)
qed

text \<open>
  The theorem at 12 terms with one missing reference each, where the warning is printed
  and the test passes, and at 10 such terms, where nothing is printed.
\<close>

theorem related_terms_never_fatal_witness:
  "run_test_related_terms_exist (dangling_terms 12) = Inr (Passed, [MissingReferencesWarning 12])
   \<and> run_test_related_terms_exist (dangling_terms 10) = Inr (Passed, [])"
proof -
  have run: "run_test_related_terms_exist (dangling_terms n) =
      Inr (Passed, if n > 10 then [MissingReferencesWarning n] else [])" for n
  proof -
    have "\<exists>ids missing.
       all_term_ids (dangling_terms n) = Inr ids
     \<and> set ids = (\<lambda>t. canon (dict_get t ''id'' YNull)) `
           {t \<in> set (dangling_terms n). py_truthy (dict_get t ''id'' YNull)}
     \<and> missing_references (dangling_terms n) ids = Inr missing
     \<and> missing = concat (map (term_missing_references ids) (dangling_terms n))
     \<and> length missing = sum_list (map (\<lambda>t. length (dangling ids t)) (dangling_terms n))
     \<and> run_test_related_terms_exist (dangling_terms n) =
         Inr (Passed, if length missing > 10 then [MissingReferencesWarning (length missing)] else [])"
      by (rule related_terms_never_fatal [OF dangling_terms_hashable [of n]])
    then obtain ids where "\<exists>missing.
       all_term_ids (dangling_terms n) = Inr ids
     \<and> set ids = (\<lambda>t. canon (dict_get t ''id'' YNull)) `
           {t \<in> set (dangling_terms n). py_truthy (dict_get t ''id'' YNull)}
     \<and> missing_references (dangling_terms n) ids = Inr missing
     \<and> missing = concat (map (term_missing_references ids) (dangling_terms n))
     \<and> length missing = sum_list (map (\<lambda>t. length (dangling ids t)) (dangling_terms n))
     \<and> run_test_related_terms_exist (dangling_terms n) =
         Inr (Passed, if length missing > 10 then [MissingReferencesWarning (length missing)] else [])" ..
    then obtain missing where c:
       "all_term_ids (dangling_terms n) = Inr ids
     \<and> set ids = (\<lambda>t. canon (dict_get t ''id'' YNull)) `
           {t \<in> set (dangling_terms n). py_truthy (dict_get t ''id'' YNull)}
     \<and> missing_references (dangling_terms n) ids = Inr missing
     \<and> missing = concat (map (term_missing_references ids) (dangling_terms n))
     \<and> length missing = sum_list (map (\<lambda>t. length (dangling ids t)) (dangling_terms n))
     \<and> run_test_related_terms_exist (dangling_terms n) =
         Inr (Passed, if length missing > 10 then [MissingReferencesWarning (length missing)] else [])" ..
    note s = c [THEN conjunct2, THEN conjunct1]
    note l = c [THEN conjunct2, THEN conjunct2, THEN conjunct2, THEN conjunct2, THEN conjunct1]
    note r = c [THEN conjunct2, THEN conjunct2, THEN conjunct2, THEN conjunct2, THEN conjunct2]
    have "length missing = n" using l dangling_terms_count [OF s] by (rule trans)
    then show ?thesis using r by (simp only:)
  qed
  have a: "run_test_related_terms_exist (dangling_terms 12) = Inr (Passed, [MissingReferencesWarning 12])"
    using run [of 12] by simp
  have b: "run_test_related_terms_exist (dangling_terms 10) = Inr (Passed, [])"
    using run [of 10] by simp
  show ?thesis by (rule conjI [OF a b])
qed

lemma related_terms_loop_append:
  "related_terms_loop (a @ b) ids acc =
     (case related_terms_loop a ids acc of Inl e \<Rightarrow> Inl e | Inr r \<Rightarrow> related_terms_loop b ids r)"
proof (induction a arbitrary: acc)
  case Nil
  then show ?case by simp
next
  case (Cons t a)
  show ?case
  proof (cases "dict_get t ''related_terms'' (YList [])")
    case (YList related)
    then show ?thesis
      by (cases "related_loop (dict_get t ''_source_file'' (YStr ''unknown''))
                   (dict_get t ''id'' (YStr ''unknown'')) related ids acc")
         (simp_all add: Let_def Cons.IH)
  qed (simp_all add: Let_def Cons.IH)
qed

text \<open>
  Claim C4 as the specification states it fails: a term whose \<open>related_terms\<close> holds a
  list is loaded and the related-terms test raises; after 12 terms with one missing
  reference each it still raises, and no warning is printed.
\<close>

theorem related_terms_never_fatal_counterexample:
  "get_all_terms [nested_related_file] = Inr [nested_related_term]
   \<and> run_test_related_terms_exist [nested_related_term] = Inl TypeError
   \<and> run_test_related_terms_exist (dangling_terms 12 @ [nested_related_term]) = Inl TypeError"
proof -
  have a: "get_all_terms [nested_related_file] = Inr [nested_related_term]"
    by (simp add: nested_related_file_def nested_related_term_def get_all_terms_def
        load_all_yaml_files_def)
  have one: "related_terms_loop [nested_related_term] ids acc = Inl TypeError" for ids acc
    by (simp add: nested_related_term_def dict_get_def Let_def)
  have i1: "all_term_ids [nested_related_term] = Inr [YStr ''worm'']"
    by (simp add: all_term_ids_def nested_related_term_def dict_get_def)
  have m1: "missing_references [nested_related_term] ids = Inl TypeError" for ids
    by (simp only: missing_references_def one)
  have b: "run_test_related_terms_exist [nested_related_term] = Inl TypeError"
    by (simp add: run_test_related_terms_exist_def i1 test_related_terms_exist_def m1)
  have h: "\<forall>t \<in> set (dangling_terms 12 @ [nested_related_term]).
             py_truthy (dict_get t ''id'' YNull) \<longrightarrow> py_hashable (dict_get t ''id'' YNull)"
  proof
    fix t assume "t \<in> set (dangling_terms 12 @ [nested_related_term])"
    then have "t \<in> set (dangling_terms 12) \<or> t = nested_related_term" by auto
    then have "dict_get t ''id'' YNull = YStr ''worm''"
    proof
      assume "t \<in> set (dangling_terms 12)"
      then show ?thesis by (rule dangling_terms_fields(1))
    next
      assume "t = nested_related_term"
      then show ?thesis by (simp add: nested_related_term_def dict_get_def)
    qed
    then show "py_truthy (dict_get t ''id'' YNull) \<longrightarrow> py_hashable (dict_get t ''id'' YNull)"
      by simp
  qed
  obtain ids where ids: "all_term_ids (dangling_terms 12 @ [nested_related_term]) = Inr ids"
    using all_term_ids_loop_eq [OF h, of "[]"] by (simp add: all_term_ids_def)
  have "related_terms_loop (dangling_terms 12 @ [nested_related_term]) ids [] = Inl TypeError"
    unfolding related_terms_loop_append
      related_terms_loop_eq [OF dangling_terms_hashable(2), of 12 ids "[]"]
    by (simp only: sum.case one)
  then have m: "missing_references (dangling_terms 12 @ [nested_related_term]) ids = Inl TypeError"
    by (simp only: missing_references_def)
  have c: "run_test_related_terms_exist (dangling_terms 12 @ [nested_related_term]) = Inl TypeError"
    by (simp add: run_test_related_terms_exist_def test_related_terms_exist_def m ids)
  show ?thesis by (intro conjI a b c)
qed

section \<open>The export record\<close>



section \<open>Order of loading in the documentation build\<close>

lemma sort_key_fst_unique:
  assumes "distinct (map fst fs)" and "mset fs' = mset fs"
  shows "sort_key fst fs' = sort_key fst fs"
proof -
  have s: "set fs' = set fs" using assms(2) by (rule mset_eq_setD)
  have inj: "inj_on fst (set fs)" using assms(1) by (simp add: distinct_map)
  have d: "distinct fs" using assms(1) by (simp add: distinct_map)
  have d': "distinct fs'" using d assms(2) by (metis mset_eq_imp_distinct_iff)
  have k: "distinct (map fst (sort_key fst fs))"
    using d inj by (simp add: distinct_map)
  have k': "distinct (map fst (sort_key fst fs'))"
    using d' inj s by (simp add: distinct_map)
  have "set (map fst (sort_key fst fs')) = set (map fst (sort_key fst fs))"
    using s by simp
  then have "map fst (sort_key fst fs') = map fst (sort_key fst fs)"
    using k k' by (intro sorted_distinct_set_unique) simp_all
  moreover have "inj_on fst (set (sort_key fst fs') \<union> set (sort_key fst fs))"
    using inj s by simp
  ultimately show ?thesis by (simp add: inj_on_map_eq_map)
qed

lemma load_all_terms_loop_loadable:
  assumes "list_all loadable_file fs"
  shows "load_all_terms_loop fs acc = Inr (acc @ concat (map file_doc_terms fs))"
  using assms
proof (induction fs arbitrary: acc)
  case Nil
  then show ?case by simp
next
  case (Cons f fs)
  obtain n d where f: "f = (n, Some d)"
    using Cons.prems by (cases f; cases "snd f") (auto simp: loadable_file_def)
  have rest: "list_all loadable_file fs" using Cons.prems by simp
  have l: "has_terms_sequence d \<or> \<not> py_truthy d \<or> py_in ''terms'' d = Inr False"
    using Cons.prems f by (simp add: loadable_file_def)
  have step: "load_all_terms_loop (f # fs) acc = load_all_terms_loop fs (acc @ doc_terms d)"
  proof (cases "has_terms_sequence d")
    case True
    then obtain m ts where d: "d = YMap m" and t: "map_of m ''terms'' = Some (YList ts)"
      by (cases d) (auto split: option.splits yaml.splits)
    have "m \<noteq> []" using t by auto
    moreover have "''terms'' \<in> fst ` set m" using t by (rule map_of_in_keys)
    ultimately show ?thesis using f d t by simp
  next
    case False
    then have skip: "\<not> py_truthy d \<or> py_in ''terms'' d = Inr False" using l by simp
    have "doc_terms d = []"
    proof (cases d)
      case (YMap m)
      show ?thesis
      proof (cases "map_of m ''terms''")
        case None
        then show ?thesis using YMap by simp
      next
        case (Some v)
        then have "''terms'' \<in> fst ` set m" by (rule map_of_in_keys)
        moreover have "m \<noteq> []" using Some by auto
        ultimately show ?thesis using skip YMap by simp
      qed
    qed simp_all
    then show ?thesis using skip f by auto
  qed
  show ?case
    unfolding step using Cons.IH [OF rest, of "acc @ doc_terms d"] f
    by (simp add: file_doc_terms_def)
qed

text \<open>
  Claim C9. The files of a directory have distinct names. Whatever the order in which
  the same files are found, \<^verbatim>\<open>load_all_terms\<close> returns the same result. It reads the files
  in the order of their names; when every file has the expected shape (or is empty or
  without \<^verbatim>\<open>terms\<close>), the result is the terms of the files in that order, each file's
  terms in the order of the document.
\<close>

theorem load_all_terms_deterministic:
  assumes "distinct (map fst fs)" and "mset fs' = mset fs"
  shows "load_all_terms fs' = load_all_terms fs
       \<and> sorted (map fst (sort_key fst fs))
       \<and> mset (sort_key fst fs) = mset fs
       \<and> (list_all loadable_file fs \<longrightarrow>
            load_all_terms fs = Inr (concat (map file_doc_terms (sort_key fst fs))))"
proof (intro conjI impI)
  show "load_all_terms fs' = load_all_terms fs"
    by (simp add: load_all_terms_def sort_key_fst_unique [OF assms])
  show "sorted (map fst (sort_key fst fs))" by simp
  show "mset (sort_key fst fs) = mset fs" by simp
  assume "list_all loadable_file fs"
  then have "list_all loadable_file (sort_key fst fs)" by (simp add: list_all_iff)
  then show "load_all_terms fs = Inr (concat (map file_doc_terms (sort_key fst fs)))"
    using load_all_terms_loop_loadable [of "sort_key fst fs" "[]"]
    by (simp add: load_all_terms_def)
qed

text \<open>The theorem at two files found in one order and in the other.\<close>

theorem load_all_terms_deterministic_witness:
  "load_all_terms [attack_file, malware_file] = load_all_terms [malware_file, attack_file]
   \<and> load_all_terms [malware_file, attack_file] =
       Inr [YMap [(''id'', YStr ''phishing'')], YMap [(''id'', YStr ''worm'')],
            YMap [(''id'', YStr ''virus'')]]"
proof -
  have d: "distinct (map fst [malware_file, attack_file])"
    by (simp add: malware_file_def attack_file_def)
  have m: "mset [attack_file, malware_file] = mset [malware_file, attack_file]"
    by (simp add: add.commute)
  have l: "list_all loadable_file [malware_file, attack_file]"
    by (simp add: loadable_file_def malware_file_def attack_file_def)
  have s: "sort_key fst [malware_file, attack_file] = [attack_file, malware_file]"
    by (simp add: malware_file_def attack_file_def)
  note th = load_all_terms_deterministic [OF d m]
  have a: "load_all_terms [attack_file, malware_file] = load_all_terms [malware_file, attack_file]"
    by (rule th [THEN conjunct1])
  have "load_all_terms [malware_file, attack_file] =
          Inr (concat (map file_doc_terms (sort_key fst [malware_file, attack_file])))"
    by (rule th [THEN conjunct2, THEN conjunct2, THEN conjunct2, THEN mp, OF l])
  then have b: "load_all_terms [malware_file, attack_file] =
       Inr [YMap [(''id'', YStr ''phishing'')], YMap [(''id'', YStr ''worm'')],
            YMap [(''id'', YStr ''virus'')]]"
    unfolding s by (simp add: file_doc_terms_def malware_file_def attack_file_def)
  show ?thesis by (rule conjI [OF a b])
qed

end
